theory Spec2Isabelle
  imports Main "HOL-Library.Sublist"
begin

section \<open>Python strings\<close>

text \<open>
  A Python \<open>str\<close> is modelled as a \<open>string\<close> whose characters are read as code points
  below 256 (so the pilcrow U+00B6 that MkDocs appends to headings is one character).
  The character classes below are Python's on that range.
\<close>

definition is_space :: "char \<Rightarrow> bool" where
  \<comment> \<open>\<open>str.isspace\<close> and the regular expression class \<open>\s\<close> on one character\<close>
  "is_space c = (let n = (of_char c :: nat) in
     (9 \<le> n \<and> n \<le> 13) \<or> (28 \<le> n \<and> n \<le> 32) \<or> n = 133 \<or> n = 160)"

definition lstrip :: "string \<Rightarrow> string" where
  "lstrip s = dropWhile is_space s"

definition rstrip :: "string \<Rightarrow> string" where
  "rstrip s = rev (dropWhile is_space (rev s))"

definition strip :: "string \<Rightarrow> string" where
  "strip s = rstrip (lstrip s)"

definition lstrip_chars :: "string \<Rightarrow> string \<Rightarrow> string" where
  \<comment> \<open>\<open>s.lstrip(chars)\<close>\<close>
  "lstrip_chars chars s = dropWhile (\<lambda>c. c \<in> set chars) s"

definition rstrip_chars :: "string \<Rightarrow> string \<Rightarrow> string" where
  \<comment> \<open>\<open>s.rstrip(chars)\<close>\<close>
  "rstrip_chars chars s = rev (dropWhile (\<lambda>c. c \<in> set chars) (rev s))"

fun join :: "string \<Rightarrow> string list \<Rightarrow> string" where
  "join sep [] = []"
| "join sep [x] = x"
| "join sep (x # y # ys) = x @ sep @ join sep (y # ys)"

fun split_on :: "char \<Rightarrow> string \<Rightarrow> string list" where
  \<comment> \<open>\<open>s.split(c)\<close> for a one-character separator\<close>
  "split_on c [] = [[]]"
| "split_on c (x # xs) =
     (if x = c then [] # split_on c xs
      else (case split_on c xs of [] \<Rightarrow> [[x]] | l # ls \<Rightarrow> (x # l) # ls))"

fun show_nat :: "nat \<Rightarrow> string" where
  \<comment> \<open>the decimal digits of a natural number\<close>
  "show_nat n =
     (if n < 10 then [char_of (48 + n)] else show_nat (n div 10) @ [char_of (48 + n mod 10)])"

definition show_int :: "int \<Rightarrow> string" where
  "show_int i = (if i < 0 then CHR ''-'' # show_nat (nat (- i)) else show_nat (nat i))"

section \<open>The rate-limited fetcher (scripts/scrape\_common.py)\<close>

definition MAX_RETRIES :: nat where
  "MAX_RETRIES = 5"

definition REQUEST_DELAY :: nat where
  "REQUEST_DELAY = 1"

definition MAX_RESPONSE_SIZE :: int where
  "MAX_RESPONSE_SIZE = 10000000"

text \<open>
  What \<open>int(resp.headers.get("content-length", 0))\<close> meets: no header (the default 0),
  a header that \<open>int\<close> reads as a number, or one on which \<open>int\<close> raises ValueError
  (\<open>Malformed\<close> keeps the \<open>repr\<close> of the header's text, which the exception's message
  ends with).
\<close>

datatype content_length = Absent | Declared int | Malformed string

record response =
  status_code :: nat
  declared_length :: content_length
  body_text :: string
  status_error :: string
    \<comment> \<open>\<open>str(e)\<close> of the HTTPStatusError that \<open>raise_for_status\<close> raises for this response\<close>

text \<open>
  What one \<open>await client.get(url)\<close> does: it raises (network failure, timeout; the
  exception's \<open>str\<close> is kept, and may be empty) or it returns a response. The network
  is a function from the attempt's index to that reply.
\<close>

datatype reply = Raised string | Replied response

text \<open>The await points of one fetch, in order: a request, or a sleep of so many seconds.\<close>

datatype event = Get | Sleep nat

record outcome =
  o_url :: string
  html :: "string option"
  error :: "string option"

definition is_success :: "nat \<Rightarrow> bool" where
  \<comment> \<open>\<open>raise_for_status\<close> returns normally on 2xx only\<close>
  "is_success s = (200 \<le> s \<and> s \<le> 299)"

definition failed :: "string \<Rightarrow> string \<Rightarrow> outcome" where
  "failed u msg = \<lparr>o_url = u, html = None, error = Some msg\<rparr>"

definition value_error_msg :: "string \<Rightarrow> string" where
  \<comment> \<open>\<open>str(e)\<close> of the ValueError of \<open>int\<close>\<close>
  "value_error_msg r = ''invalid literal for int() with base 10: '' @ r"

definition too_large_msg :: "int \<Rightarrow> string" where
  "too_large_msg n = ''Response too large ('' @ show_int n @ '' bytes)''"

text \<open>
  The body of \<open>for attempt in range(MAX_RETRIES)\<close> in \<open>fetch_one\<close>, over the attempts
  still to run; the equation for the empty list is the statement after the loop.
\<close>

fun fetch_loop :: "(nat \<Rightarrow> reply) \<Rightarrow> string \<Rightarrow> nat list \<Rightarrow> outcome \<times> event list" where
  "fetch_loop net u [] = (failed u ''Max retries exceeded (429)'', [])"
| "fetch_loop net u (attempt # rest) =
     (let retry = (case fetch_loop net u rest of
                     (res, evs) \<Rightarrow> (res, Get # Sleep (10 * (attempt + 1)) # evs))
        \<comment> \<open>\<open>await asyncio.sleep(wait); continue\<close>, with \<open>wait = 10 * (attempt + 1)\<close>\<close>
      in case net attempt of
        Raised msg \<Rightarrow> (failed u msg, [Get])
      | Replied resp \<Rightarrow>
          if status_code resp = 429 then retry
          else if \<not> is_success (status_code resp) then
            (if status_code resp = 429 \<and> attempt < MAX_RETRIES - 1 then retry
             else (failed u (status_error resp), [Get]))
          else
            (case declared_length resp of
               Malformed r \<Rightarrow> (failed u (value_error_msg r), [Get])
             | Declared n \<Rightarrow>
                 if n > MAX_RESPONSE_SIZE then (failed u (too_large_msg n), [Get])
                 else if int (length (body_text resp)) > MAX_RESPONSE_SIZE then
                   (failed u (too_large_msg (int (length (body_text resp)))), [Get])
                 else (\<lparr>o_url = u, html = Some (body_text resp), error = None\<rparr>,
                       [Get, Sleep REQUEST_DELAY])
             | Absent \<Rightarrow>
                 if (0::int) > MAX_RESPONSE_SIZE then (failed u (too_large_msg 0), [Get])
                 else if int (length (body_text resp)) > MAX_RESPONSE_SIZE then
                   (failed u (too_large_msg (int (length (body_text resp)))), [Get])
                 else (\<lparr>o_url = u, html = Some (body_text resp), error = None\<rparr>,
                       [Get, Sleep REQUEST_DELAY])))"

definition fetch_one :: "(nat \<Rightarrow> reply) \<Rightarrow> string \<Rightarrow> outcome \<times> event list" where
  "fetch_one net u = fetch_loop net u [0..<MAX_RETRIES]"

text \<open>
  \<open>fetch_pages\<close>: one task per position of \<open>urls\<close>; \<open>asyncio.gather\<close> returns the tasks'
  results in the order of the tasks. \<open>nets i\<close> is the network as the \<open>i\<close>-th task meets it.
\<close>

definition fetch_pages :: "(nat \<Rightarrow> nat \<Rightarrow> reply) \<Rightarrow> string list \<Rightarrow> outcome list" where
  "fetch_pages nets urls =
     map (\<lambda>(i, u). fst (fetch_one (nets i) u)) (zip [0..<length urls] urls)"

text \<open>Vocabulary of the statements about the fetcher.\<close>

definition rate_limited :: "reply \<Rightarrow> bool" where
  "rate_limited rp = (case rp of Raised msg \<Rightarrow> False | Replied resp \<Rightarrow> status_code resp = 429)"

definition within_limits :: "response \<Rightarrow> bool" where
  "within_limits resp =
     ((case declared_length resp of
         Absent \<Rightarrow> True | Declared n \<Rightarrow> n \<le> MAX_RESPONSE_SIZE | Malformed r \<Rightarrow> False)
      \<and> int (length (body_text resp)) \<le> MAX_RESPONSE_SIZE)"

definition oversized :: "response \<Rightarrow> bool" where
  "oversized resp =
     ((case declared_length resp of
         Absent \<Rightarrow> False | Declared n \<Rightarrow> n > MAX_RESPONSE_SIZE | Malformed r \<Rightarrow> False)
      \<or> int (length (body_text resp)) > MAX_RESPONSE_SIZE)"

definition backoff :: "nat list \<Rightarrow> event list" where
  \<comment> \<open>a request answered 429 and the wait that follows it, for each of the attempts\<close>
  "backoff attempts = concat (map (\<lambda>a. [Get, Sleep (10 * (a + 1))]) attempts)"

definition requests :: "event list \<Rightarrow> nat" where
  "requests evs = length (filter (\<lambda>e. e = Get) evs)"

section \<open>The markdown extractor (scripts/scrape\_nodes\_github.py)\<close>

definition lower_char :: "char \<Rightarrow> char" where
  \<comment> \<open>\<open>str.lower\<close> on one character\<close>
  "lower_char c = (let n = (of_char c :: nat) in
     if (65 \<le> n \<and> n \<le> 90) \<or> (192 \<le> n \<and> n \<le> 222 \<and> n \<noteq> 215) then char_of (n + 32) else c)"

definition is_word_char :: "char \<Rightarrow> bool" where
  \<comment> \<open>the regular expression class \<open>\w\<close>\<close>
  "is_word_char c = (let n = (of_char c :: nat) in
     (48 \<le> n \<and> n \<le> 57) \<or> (65 \<le> n \<and> n \<le> 90) \<or> n = 95 \<or> (97 \<le> n \<and> n \<le> 122) \<or>
     n = 170 \<or> n = 178 \<or> n = 179 \<or> n = 181 \<or> n = 185 \<or> n = 186 \<or>
     (188 \<le> n \<and> n \<le> 190) \<or> (192 \<le> n \<and> n \<le> 214) \<or> (216 \<le> n \<and> n \<le> 246) \<or>
     (248 \<le> n \<and> n \<le> 255))"

record section_rec =
  heading :: string
  level :: nat
  s_content :: string
  anchor :: string

record code_example =
  language :: string
  code :: string
  ce_context :: string

record extracted =
  title :: string
  content_text :: string
  sections :: "section_rec list"
  code_examples :: "code_example list"

definition NL :: string where
  "NL = [CHR 0x0A]"

definition fence :: string where
  \<comment> \<open>three backticks\<close>
  "fence = replicate 3 (CHR 0x60)"

definition heading_match :: "string \<Rightarrow> (nat \<times> string) option" where
  \<comment> \<open>\<open>re.match(r"^(#{1,4})\s+(.+)", line)\<close> on a line (a string without a newline):
      the length of group 1 and \<open>group(2).strip()\<close>. One to four hashes, then white space,
      then at least one more character; when only white space follows the hashes, group 2
      is its last character and strips to the empty string.\<close>
  "heading_match line =
     (let n = length (takeWhile (\<lambda>c. c = CHR ''#'') line); after = drop n line
      in if 1 \<le> n \<and> n \<le> 4 \<and> 2 \<le> length after \<and> is_space (hd after)
         then Some (n, strip after) else None)"

definition make_anchor :: "string \<Rightarrow> string" where
  \<comment> \<open>\<open>re.sub(r"[^\w\s-]", "", heading_text.lower()).replace(" ", "-")\<close>\<close>
  "make_anchor heading_text =
     map (\<lambda>c. if c = CHR '' '' then CHR ''-'' else c)
       (filter (\<lambda>c. is_word_char c \<or> is_space c \<or> c = CHR ''-'') (map lower_char heading_text))"

definition first_token :: "string \<Rightarrow> string" where
  \<comment> \<open>\<open>s.split()[0]\<close> for a stripped, non-empty \<open>s\<close>\<close>
  "first_token s = takeWhile (\<lambda>c. \<not> is_space c) s"

text \<open>
  The local variables of \<open>parse_markdown\<close>. \<open>current_section\<close> is the dictionary last
  appended to \<open>sections\<close> (the same object, so assigning its content changes the list's
  last element), and \<open>None\<close> while the list is empty.
\<close>

record md_state =
  st_title :: string
  st_sections :: "section_rec list"
  st_examples :: "code_example list"
  in_code_block :: bool
  code_lang :: string
  code_lines :: "string list"
  text_parts :: "string list"

definition current_section :: "md_state \<Rightarrow> section_rec option" where
  "current_section st = (if st_sections st = [] then None else Some (last (st_sections st)))"

definition save_section :: "md_state \<Rightarrow> section_rec list" where
  \<comment> \<open>\<open>if current_section and text_parts: current_section["content"] = ...\<close>\<close>
  "save_section st =
     (if st_sections st \<noteq> [] \<and> text_parts st \<noteq> []
      then butlast (st_sections st) @
           [(last (st_sections st))\<lparr>s_content := strip (join NL (text_parts st))\<rparr>]
      else st_sections st)"

definition md_step :: "md_state \<Rightarrow> string \<Rightarrow> md_state" where
  \<comment> \<open>the body of \<open>for line in lines\<close>\<close>
  "md_step st line =
     (if prefix fence line then
        (if in_code_block st then
           (let code_text = join NL (code_lines st)
            in st\<lparr>st_examples :=
                    (if strip code_text \<noteq> [] then
                       st_examples st @
                         [\<lparr>language = (if code_lang st \<noteq> [] then code_lang st else ''python''),
                           code = code_text,
                           ce_context = (case current_section st of None \<Rightarrow> []
                                      | Some s \<Rightarrow> heading s)\<rparr>]
                     else st_examples st),
                  code_lines := [], in_code_block := False\<rparr>)
         else
           st\<lparr>in_code_block := True,
              code_lang :=
                (if strip (lstrip_chars [CHR 0x60] line) \<noteq> []
                 then first_token (strip (lstrip_chars [CHR 0x60] line)) else ''python'')\<rparr>)
      else if in_code_block st then st\<lparr>code_lines := code_lines st @ [line]\<rparr>
      else
        (case heading_match line of
           Some (lvl, heading_text) \<Rightarrow>
             if lvl = 1 \<and> st_title st = [] then st\<lparr>st_title := heading_text\<rparr>
             else
               st\<lparr>st_sections :=
                    save_section st @
                      [\<lparr>heading = heading_text, level = lvl, s_content = [],
                        anchor = make_anchor heading_text\<rparr>],
                  text_parts := []\<rparr>
         | None \<Rightarrow> st\<lparr>text_parts := text_parts st @ [line]\<rparr>))"

definition md_init :: md_state where
  "md_init = \<lparr>st_title = [], st_sections = [], st_examples = [], in_code_block = False,
              code_lang = [], code_lines = [], text_parts = []\<rparr>"

definition parse_markdown :: "string \<Rightarrow> extracted" where
  "parse_markdown content =
     (let st = foldl md_step md_init (split_on (CHR 0x0A) content)
      in \<lparr>title = st_title st, content_text = content, sections = save_section st,
          code_examples = st_examples st\<rparr>)"

text \<open>
  Vocabulary of the statements about the markdown extractor: the headings of a text, that
  is the matches of the heading pattern on the lines outside code fences, in order
  (\<open>inside\<close> tells whether the first line is inside a code block).
\<close>

fun headings_of :: "bool \<Rightarrow> string list \<Rightarrow> (nat \<times> string) list" where
  "headings_of inside [] = []"
| "headings_of inside (line # rest) =
     (if prefix fence line then headings_of (\<not> inside) rest
      else if inside then headings_of inside rest
      else (case heading_match line of
              Some h \<Rightarrow> h # headings_of inside rest
            | None \<Rightarrow> headings_of inside rest))"

definition titling :: "nat \<times> string \<Rightarrow> bool" where
  \<comment> \<open>a level-1 heading with text\<close>
  "titling h = (fst h = 1 \<and> snd h \<noteq> [])"

definition title_heading :: "(nat \<times> string) list \<Rightarrow> string" where
  \<comment> \<open>the text of the first level-1 heading with text, wherever it stands\<close>
  "title_heading hs = (case find titling hs of None \<Rightarrow> [] | Some h \<Rightarrow> snd h)"

definition emitted_headings :: "(nat \<times> string) list \<Rightarrow> (nat \<times> string) list" where
  \<comment> \<open>the headings before the first level-1 heading with text, without the level-1
      headings among them; then all the headings after it\<close>
  "emitted_headings hs =
     filter (\<lambda>h. fst h \<noteq> 1) (takeWhile (\<lambda>h. \<not> titling h) hs) @
     tl (dropWhile (\<lambda>h. \<not> titling h) hs)"

definition level_heading :: "section_rec \<Rightarrow> nat \<times> string" where
  "level_heading s = (level s, heading s)"

section \<open>The HTML extractor (scripts/scrape\_common.py)\<close>

text \<open>
  The tree that \<open>BeautifulSoup(html, "lxml")\<close> builds. A \<open>Tag\<close> has its name, the list of
  its classes (the multi-valued \<open>class\<close> attribute), its other attributes and its
  children. A \<open>Text\<close> is a string of the tree, with the class the library gives it: the
  tree builder makes a string inside a \<open>style\<close>, \<open>script\<close>, \<open>template\<close>, \<open>rt\<close> or \<open>rp\<close>
  element a \<open>Stylesheet\<close>, \<open>Script\<close>, \<open>TemplateString\<close>, \<open>RubyTextString\<close> or
  \<open>RubyParenthesisString\<close>, a comment a \<open>Comment\<close>, and any other text a
  \<open>NavigableString\<close>. The soup itself is the tag named \<open>[document]\<close>.
\<close>

datatype string_class =
    NavigableString | CData | Comment | Declaration | Doctype | ProcessingInstruction
  | Stylesheet | Script | TemplateString | RubyTextString | RubyParenthesisString

datatype html_node =
    Tag (tag_name: string) (tag_classes: "string list") (tag_attrs: "(string \<times> string) list")
      (tag_children: "html_node list")
  | Text string_class string

definition string_containers :: "(string \<times> string_class) list" where
  \<comment> \<open>\<open>HTMLTreeBuilder.DEFAULT_STRING_CONTAINERS\<close>\<close>
  "string_containers =
     [(''rt'', RubyTextString), (''rp'', RubyParenthesisString), (''style'', Stylesheet),
      (''script'', Script), (''template'', TemplateString)]"

definition interesting_string_types :: "html_node \<Rightarrow> string_class list" where
  \<comment> \<open>the classes of string that \<open>get_text\<close> reports when it is called on an element: for a
      string container its own class of string, for any other element the library's
      default \<open>(NavigableString, CData)\<close>\<close>
  "interesting_string_types el =
     (case el of
        Tag n cls attrs cs \<Rightarrow>
          (case map_of string_containers n of
             Some c \<Rightarrow> [c]
           | None \<Rightarrow> [NavigableString, CData])
      | Text c s \<Rightarrow> [NavigableString, CData])"

fun strings_of :: "string_class list \<Rightarrow> html_node \<Rightarrow> string list" where
  \<comment> \<open>the strings below a node whose class is one of \<open>types\<close>, in document order\<close>
  "strings_of types (Text c s) = (if c \<in> set types then [s] else [])"
| "strings_of types (Tag n cls attrs cs) = concat (map (strings_of types) cs)"

definition all_strings :: "html_node \<Rightarrow> string list" where
  \<comment> \<open>\<open>el._all_strings()\<close> with the default \<open>types\<close>: the classes are those of the element
      the method is called on, whatever element the string stands in\<close>
  "all_strings el = strings_of (interesting_string_types el) el"

fun descendants :: "html_node \<Rightarrow> html_node list" where
  \<comment> \<open>the nodes below a node, in document order\<close>
  "descendants (Text c s) = []"
| "descendants (Tag n cls attrs cs) = concat (map (\<lambda>c. c # descendants c) cs)"

definition get_text :: "html_node \<Rightarrow> string" where
  \<comment> \<open>\<open>el.get_text()\<close>\<close>
  "get_text el = concat (all_strings el)"

definition get_text_strip :: "string \<Rightarrow> html_node \<Rightarrow> string" where
  \<comment> \<open>\<open>el.get_text(separator=sep, strip=True)\<close>: the stripped strings that are not empty\<close>
  "get_text_strip sep el = join sep (filter (\<lambda>s. s \<noteq> []) (map strip (all_strings el)))"

definition is_tag :: "html_node \<Rightarrow> bool" where
  "is_tag el = (case el of Tag n cls attrs cs \<Rightarrow> True | Text c s \<Rightarrow> False)"

definition named :: "string list \<Rightarrow> html_node \<Rightarrow> bool" where
  \<comment> \<open>a tag whose name is one of \<open>names\<close>\<close>
  "named names el = (case el of Tag n cls attrs cs \<Rightarrow> n \<in> set names | Text c s \<Rightarrow> False)"

definition has_class :: "string \<Rightarrow> html_node \<Rightarrow> bool" where
  "has_class c el = (case el of Tag n cls attrs cs \<Rightarrow> c \<in> set cls | Text k s \<Rightarrow> False)"

definition get_attr :: "html_node \<Rightarrow> string \<Rightarrow> string option" where
  "get_attr el k = (case el of Tag n cls attrs cs \<Rightarrow> map_of attrs k | Text c s \<Rightarrow> None)"

definition pilcrow :: string where
  \<comment> \<open>the anchor character U+00B6 that MkDocs appends to headings\<close>
  "pilcrow = [CHR 0xB6]"

definition heading_text_of :: "html_node \<Rightarrow> string" where
  \<comment> \<open>\<open>el.get_text(strip=True).rstrip(pilcrow).strip()\<close>\<close>
  "heading_text_of el = strip (rstrip_chars pilcrow (get_text_strip [] el))"

fun replace :: "string \<Rightarrow> string \<Rightarrow> string \<Rightarrow> string" where
  \<comment> \<open>\<open>s.replace(old, new)\<close> for a non-empty \<open>old\<close>\<close>
  "replace old new [] = []"
| "replace old new (c # cs) =
     (if old \<noteq> [] \<and> prefix old (c # cs)
      then new @ replace old new (drop (length old - 1) cs)
      else c # replace old new cs)"

definition make_section :: "html_node \<Rightarrow> html_node list \<Rightarrow> section_rec" where
  \<comment> \<open>the section of a heading; \<open>siblings\<close> are the nodes after it under the same parent.
      \<open>heading.find_next_siblings()\<close> yields the tags among them, and the loop stops at
      the first one named h1, h2, h3 or h4.\<close>
  "make_section h siblings =
     \<lparr>heading = heading_text_of h,
      level = (case tag_name h of [c0, c1] \<Rightarrow> of_char c1 - 48 | other \<Rightarrow> 0),
      s_content =
        join NL (map (get_text_strip NL)
          (takeWhile (\<lambda>s. \<not> named [''h1'', ''h2'', ''h3'', ''h4''] s) (filter is_tag siblings))),
      anchor = (case get_attr h ''id'' of None \<Rightarrow> [] | Some a \<Rightarrow> a)\<rparr>"

fun sections_of_node :: "html_node \<Rightarrow> html_node list \<Rightarrow> section_rec list"
  and sections_of_list :: "html_node list \<Rightarrow> section_rec list" where
  \<comment> \<open>\<open>find_all(["h2", "h3", "h4"])\<close> under a list of children, in document order, each
      heading with its section\<close>
  "sections_of_node (Text c s) siblings = []"
| "sections_of_node (Tag n cls attrs cs) siblings =
     (if n \<in> set [''h2'', ''h3'', ''h4''] then [make_section (Tag n cls attrs cs) siblings]
      else []) @ sections_of_list cs"
| "sections_of_list [] = []"
| "sections_of_list (c # rest) = sections_of_node c rest @ sections_of_list rest"

fun detect_language :: "string list \<Rightarrow> string" where
  \<comment> \<open>the loop over the classes of the code element\<close>
  "detect_language [] = ''text''"
| "detect_language (cls # rest) =
     (if prefix ''language-'' cls then replace ''language-'' [] cls
      else if prefix ''highlight-'' cls \<and> takeWhile is_word_char (drop 10 cls) \<noteq> []
      then takeWhile is_word_char (drop 10 cls)
      else detect_language rest)"

definition make_example :: "html_node \<Rightarrow> html_node list \<Rightarrow> code_example list" where
  \<comment> \<open>the body of \<open>for pre in content_el.find_all("pre")\<close>; \<open>before\<close> are the nodes of the
      document that come before \<open>pre\<close> in document order, the nearest first\<close>
  "make_example pre before =
     (case find (named [''code'']) (descendants pre) of
        None \<Rightarrow> []
      | Some code_el \<Rightarrow>
          if strip (get_text code_el) = [] then []
          else [\<lparr>language = detect_language (tag_classes code_el),
                 code = strip (get_text code_el),
                 ce_context =
                   (case find (named [''p'', ''h2'', ''h3'', ''h4'']) before of
                      None \<Rightarrow> [] | Some prev \<Rightarrow> heading_text_of prev)\<rparr>])"

record extracted_html = extracted +
  content_html :: "html_node option"
    \<comment> \<open>the content element, which the source keeps as its markup \<open>str(content_el)\<close>;
        \<open>None\<close> stands for the empty string\<close>
  breadcrumbs :: "string list"

definition first_index :: "('a \<Rightarrow> bool) \<Rightarrow> 'a list \<Rightarrow> nat option" where
  "first_index P xs = (if list_ex P xs then Some (length (takeWhile (\<lambda>x. \<not> P x) xs)) else None)"

definition select_content :: "html_node list \<Rightarrow> nat option" where
  \<comment> \<open>the position in document order of
      \<open>select_one(".md-content__inner") or select_one(".md-content") or select_one("article")\<close>\<close>
  "select_content doc =
     (case first_index (has_class ''md-content__inner'') doc of
        Some i \<Rightarrow> Some i
      | None \<Rightarrow>
          (case first_index (has_class ''md-content'') doc of
             Some i \<Rightarrow> Some i
           | None \<Rightarrow> first_index (named [''article'']) doc))"

definition select_breadcrumb :: "html_node list \<Rightarrow> html_node option" where
  \<comment> \<open>\<open>select_one(".md-breadcrumb") or select_one("nav[aria-label='Breadcrumb']")\<close>\<close>
  "select_breadcrumb doc =
     (case find (has_class ''md-breadcrumb'') doc of
        Some el \<Rightarrow> Some el
      | None \<Rightarrow>
          find (\<lambda>el. named [''nav''] el \<and> get_attr el ''aria-label'' = Some ''Breadcrumb'') doc)"

definition extract_mkdocs_content :: "html_node \<Rightarrow> extracted_html" where
  "extract_mkdocs_content soup =
     (let doc = descendants soup;
          h1_title = (case find (named [''h1'']) doc of
                        None \<Rightarrow> [] | Some h1 \<Rightarrow> get_text_strip [] h1);
          page_title = strip (rstrip_chars pilcrow h1_title)
      in case select_content doc of
           None \<Rightarrow>
             \<lparr>title = page_title, content_text = [], sections = [], code_examples = [],
              content_html = None, breadcrumbs = []\<rparr>
         | Some ci \<Rightarrow>
             (let content_el = doc ! ci;
                  inner = [Suc ci..<Suc ci + length (descendants content_el)]
              in \<lparr>title = page_title,
                  content_text = get_text_strip NL content_el,
                  sections = sections_of_list (tag_children content_el),
                  code_examples =
                    concat (map (\<lambda>j. if named [''pre''] (doc ! j)
                                      then make_example (doc ! j) (rev (take j doc)) else [])
                              inner),
                  content_html = Some content_el,
                  breadcrumbs =
                    (case select_breadcrumb doc of
                       None \<Rightarrow> []
                     | Some nav \<Rightarrow>
                         map (get_text_strip []) (filter (named [''a'']) (descendants nav)))\<rparr>))"

text \<open>
  Vocabulary of the statements about the HTML extractor: every node below a list of
  children, in document order, with the siblings that follow it.
\<close>

fun sites_below :: "html_node \<Rightarrow> (html_node \<times> html_node list) list"
  and sites :: "html_node list \<Rightarrow> (html_node \<times> html_node list) list" where
  "sites_below (Text c s) = []"
| "sites_below (Tag n cls attrs cs) = sites cs"
| "sites [] = []"
| "sites (c # rest) = (c, rest) # sites_below c @ sites rest"

definition heading_level :: "html_node \<Rightarrow> nat" where
  \<comment> \<open>the digit of a heading's name\<close>
  "heading_level el =
     (case el of Tag n cls attrs cs \<Rightarrow> (case n of [c0, c1] \<Rightarrow> of_char c1 - 48 | other \<Rightarrow> 0)
      | Text c s \<Rightarrow> 0)"

definition body_to_same_level :: "html_node \<Rightarrow> html_node list \<Rightarrow> string" where
  \<comment> \<open>Modelled from the claim's words, for comparison with \<open>make_section\<close>: the text of the
      elements between a heading and the next heading of equal or higher level (a level
      number not greater than its own)\<close>
  "body_to_same_level h siblings =
     join NL (map (get_text_strip NL)
       (takeWhile
          (\<lambda>s. \<not> (named [''h1'', ''h2'', ''h3'', ''h4''] s \<and> heading_level s \<le> heading_level h))
          (filter is_tag siblings)))"

section \<open>The corpus store (SCHEMA\_SQL in src/griptape\_mcp/db.py)\<close>

text \<open>
  The rows of the four tables. Tables are lists in rowid order. The column \<open>crawled_at\<close>
  (the wall clock at insertion) is left out. \<open>content_html\<close> holds the content element
  and \<open>breadcrumbs\<close> the list of labels, of which the database stores the serialisations
  \<open>str(content_el)\<close> and \<open>json.dumps(breadcrumbs)\<close>. A nullable column that the scrapers
  may fill with NULL is an \<open>option\<close>.
\<close>

record page_row =
  p_id :: int
  p_url :: string
  p_source :: string
  p_title :: string
  p_content :: string
  p_content_html :: "html_node option"
  p_breadcrumbs :: "string list"
  p_last_modified :: "string option"

record section_row = section_rec +
  sec_id :: int
  sec_page_id :: int

record code_example_row = code_example +
  ce_id :: int
  ce_page_id :: int
  ce_section_id :: "int option"

record node_row =
  n_id :: int
  n_name :: string
  n_display_name :: "string option"
  n_category :: string
  n_description :: "string option"
  n_page_id :: "int option"

text \<open>
  The database: the four tables, the two full-text indexes (\<open>pages_fts\<close> over title and
  content, \<open>sections_fts\<close> over heading and content; an entry is the rowid with the two
  texts indexed under it), and the AUTOINCREMENT counters of \<open>sqlite_sequence\<close>.
\<close>

record db =
  db_pages :: "page_row list"
  db_sections :: "section_row list"
  db_code_examples :: "code_example_row list"
  db_nodes :: "node_row list"
  pages_fts :: "(int \<times> string \<times> string) list"
  sections_fts :: "(int \<times> string \<times> string) list"
  seq_pages :: int
  seq_sections :: int
  seq_code_examples :: int
  seq_nodes :: int

definition init_db :: db where
  \<comment> \<open>the schema on a new file: empty tables\<close>
  "init_db = \<lparr>db_pages = [], db_sections = [], db_code_examples = [], db_nodes = [],
              pages_fts = [], sections_fts = [], seq_pages = 0, seq_sections = 0,
              seq_code_examples = 0, seq_nodes = 0\<rparr>"

definition next_rowid :: "int \<Rightarrow> int list \<Rightarrow> int" where
  \<comment> \<open>\<open>INTEGER PRIMARY KEY AUTOINCREMENT\<close>: one more than the largest rowid the table has
      or ever had\<close>
  "next_rowid seq ids = fold max ids seq + 1"

text \<open>
  The triggers. \<open>pages_ai\<close> and \<open>sections_ai\<close> (AFTER INSERT) add the new row's entry to the
  index; \<open>pages_ad\<close> and \<open>sections_ad\<close> (AFTER DELETE) issue the index's \<open>'delete'\<close> command
  for the old row's entry. The AFTER UPDATE triggers do both; no statement of the
  repository updates a row.
\<close>

definition fts_insert :: "int \<times> string \<times> string \<Rightarrow> (int \<times> string \<times> string) list
    \<Rightarrow> (int \<times> string \<times> string) list" where
  "fts_insert entry index = index @ [entry]"

definition fts_delete :: "int \<times> string \<times> string \<Rightarrow> (int \<times> string \<times> string) list
    \<Rightarrow> (int \<times> string \<times> string) list" where
  "fts_delete entry index = remove1 entry index"

definition section_entry :: "section_row \<Rightarrow> int \<times> string \<times> string" where
  "section_entry s = (sec_id s, heading s, s_content s)"

definition page_entry :: "page_row \<Rightarrow> int \<times> string \<times> string" where
  "page_entry p = (p_id p, p_title p, p_content p)"

text \<open>
  What the engine does when rows of \<open>pages\<close> are removed by the REPLACE conflict
  resolution, on a connection with \<open>PRAGMA foreign_keys=ON\<close> and the default
  \<open>recursive_triggers=OFF\<close> (the scrapers set the first pragma and never the second).
  The foreign key actions run: sections and code examples of the pages are deleted (ON
  DELETE CASCADE), with \<open>sections_ad\<close> fired for each deleted section and the
  \<open>section_id\<close> of code examples that point to one set to NULL; \<open>page_id\<close> of nodes that
  point to a removed page is set to NULL (ON DELETE SET NULL). SQLite fires the delete
  triggers of the table itself for rows removed by REPLACE only when recursive triggers
  are enabled, so \<open>pages_ad\<close> does not run and \<open>pages_fts\<close> is left as it is.
\<close>

definition replace_delete_pages :: "int list \<Rightarrow> db \<Rightarrow> db" where
  "replace_delete_pages olds d =
     (let gone = filter (\<lambda>s. sec_page_id s \<in> set olds) (db_sections d)
      in d\<lparr>db_pages := filter (\<lambda>p. p_id p \<notin> set olds) (db_pages d),
           db_sections := filter (\<lambda>s. sec_page_id s \<notin> set olds) (db_sections d),
           sections_fts := fold fts_delete (map section_entry gone) (sections_fts d),
           db_code_examples :=
             map (\<lambda>e. case ce_section_id e of
                         None \<Rightarrow> e
                       | Some i \<Rightarrow> if i \<in> set (map sec_id gone)
                                   then e\<lparr>ce_section_id := None\<rparr> else e)
               (filter (\<lambda>e. ce_page_id e \<notin> set olds) (db_code_examples d)),
           db_nodes :=
             map (\<lambda>n. case n_page_id n of
                         None \<Rightarrow> n
                       | Some i \<Rightarrow> if i \<in> set olds then n\<lparr>n_page_id := None\<rparr> else n)
               (db_nodes d)\<rparr>)"

text \<open>
  \<open>INSERT OR REPLACE INTO pages (url, source, title, content, content_html, breadcrumbs,
  last_modified) VALUES (...)\<close>. The new row gets a new rowid; the rows that hold the same
  \<open>url\<close> (the UNIQUE column) are removed first; \<open>pages_ai\<close> indexes the new row. The result
  is the database and \<open>cursor.lastrowid\<close>.
\<close>

definition insert_or_replace_page ::
  "db \<Rightarrow> string \<Rightarrow> string \<Rightarrow> string \<Rightarrow> string \<Rightarrow> html_node option \<Rightarrow> string list
     \<Rightarrow> string option \<Rightarrow> db \<times> int" where
  "insert_or_replace_page d u src ttl cont cont_html crumbs lastmod =
     (let new_id = next_rowid (seq_pages d) (map p_id (db_pages d));
          olds = map p_id (filter (\<lambda>p. p_url p = u) (db_pages d));
          d1 = replace_delete_pages olds d;
          row = \<lparr>p_id = new_id, p_url = u, p_source = src, p_title = ttl, p_content = cont,
                 p_content_html = cont_html, p_breadcrumbs = crumbs,
                 p_last_modified = lastmod\<rparr>
      in (d1\<lparr>db_pages := db_pages d1 @ [row], seq_pages := new_id,
              pages_fts := fts_insert (page_entry row) (pages_fts d1)\<rparr>,
          new_id))"

text \<open>
  The three plain inserts. \<open>None\<close> is \<open>sqlite3.IntegrityError\<close>: the row's \<open>page_id\<close> (or
  \<open>section_id\<close>) names no row of the parent table. The statement then changes nothing.
\<close>

definition insert_section :: "db \<Rightarrow> int \<Rightarrow> section_rec \<Rightarrow> db option" where
  \<comment> \<open>\<open>INSERT INTO sections (page_id, heading, level, content, anchor)\<close>\<close>
  "insert_section d pid s =
     (if pid \<notin> set (map p_id (db_pages d)) then None
      else
        (let i = next_rowid (seq_sections d) (map sec_id (db_sections d));
             row = \<lparr>heading = heading s, level = level s, s_content = s_content s,
                    anchor = anchor s, sec_id = i, sec_page_id = pid\<rparr>
         in Some (d\<lparr>db_sections := db_sections d @ [row], seq_sections := i,
                     sections_fts := fts_insert (section_entry row) (sections_fts d)\<rparr>)))"

definition select_section_id :: "db \<Rightarrow> int \<Rightarrow> string \<Rightarrow> int option" where
  \<comment> \<open>\<open>SELECT id FROM sections WHERE page_id = ? AND heading = ? LIMIT 1\<close>\<close>
  "select_section_id d pid h =
     map_option sec_id (find (\<lambda>s. sec_page_id s = pid \<and> heading s = h) (db_sections d))"

definition insert_code_example :: "db \<Rightarrow> int \<Rightarrow> int option \<Rightarrow> code_example \<Rightarrow> db option" where
  \<comment> \<open>\<open>INSERT INTO code_examples (page_id, section_id, language, code, context)\<close>\<close>
  "insert_code_example d pid sid ex =
     (if pid \<notin> set (map p_id (db_pages d)) then None
      else if (case sid of None \<Rightarrow> False | Some i \<Rightarrow> i \<notin> set (map sec_id (db_sections d)))
      then None
      else
        (let i = next_rowid (seq_code_examples d) (map ce_id (db_code_examples d));
             row = \<lparr>language = language ex, code = code ex, ce_context = ce_context ex,
                    ce_id = i, ce_page_id = pid, ce_section_id = sid\<rparr>
         in Some (d\<lparr>db_code_examples := db_code_examples d @ [row],
                     seq_code_examples := i\<rparr>)))"

definition insert_node ::
  "db \<Rightarrow> string \<Rightarrow> string \<Rightarrow> string \<Rightarrow> string option \<Rightarrow> int \<Rightarrow> db option" where
  \<comment> \<open>\<open>INSERT INTO nodes (name, display_name, category, description, page_id)\<close>\<close>
  "insert_node d nm disp cat descr pid =
     (if pid \<notin> set (map p_id (db_pages d)) then None
      else
        (let i = next_rowid (seq_nodes d) (map n_id (db_nodes d));
             row = \<lparr>n_id = i, n_name = nm, n_display_name = Some disp, n_category = cat,
                    n_description = descr, n_page_id = Some pid\<rparr>
         in Some (d\<lparr>db_nodes := db_nodes d @ [row], seq_nodes := i\<rparr>)))"

section \<open>The site scrapers (scripts/scrape\_framework.py, scrape\_nodes.py, scrape\_nodes\_github.py)\<close>

definition is_cased :: "char \<Rightarrow> bool" where
  "is_cased c = (let n = (of_char c :: nat) in
     (65 \<le> n \<and> n \<le> 90) \<or> (97 \<le> n \<and> n \<le> 122) \<or> n = 170 \<or> n = 181 \<or> n = 186 \<or>
     (192 \<le> n \<and> n \<le> 214) \<or> (216 \<le> n \<and> n \<le> 246) \<or> (248 \<le> n \<and> n \<le> 255))"

definition title_char :: "char \<Rightarrow> string" where
  \<comment> \<open>the title-case form of a character. Those of U+00B5 and U+00FF lie above 255; the
      model leaves these two characters as they are.\<close>
  "title_char c = (let n = (of_char c :: nat) in
     if (97 \<le> n \<and> n \<le> 122) \<or> (224 \<le> n \<and> n \<le> 254 \<and> n \<noteq> 247) then [char_of (n - 32)]
     else if n = 223 then ''Ss'' else [c])"

fun title_from :: "bool \<Rightarrow> string \<Rightarrow> string" where
  "title_from previous_is_cased [] = []"
| "title_from previous_is_cased (c # cs) =
     (if previous_is_cased then [lower_char c] else title_char c) @ title_from (is_cased c) cs"

definition py_title :: "string \<Rightarrow> string" where
  \<comment> \<open>\<open>s.title()\<close>\<close>
  "py_title s = title_from False s"

definition humanize :: "string \<Rightarrow> string" where
  \<comment> \<open>\<open>s.replace("_", " ").title()\<close>\<close>
  "humanize s = py_title (replace ''_'' '' '' s)"

definition CATEGORY_MAP :: "(string \<times> string) list" where
  \<comment> \<open>of scrape\_nodes.py\<close>
  "CATEGORY_MAP =
     [(''agents'', ''Agents''), (''audio'', ''Audio''), (''config'', ''Config''),
      (''convert'', ''Convert''), (''dict'', ''Dict''), (''execution'', ''Execution''),
      (''image'', ''Image''), (''json'', ''JSON''), (''lists'', ''Lists''), (''misc'', ''Misc''),
      (''number'', ''Number''), (''rules'', ''Rules''), (''text'', ''Text''),
      (''three_d'', ''3D''), (''tools'', ''Tools''), (''video'', ''Video''),
      (''advanced_media_library'', ''Advanced Media Library'')]"

definition CATEGORY_MAP_github :: "(string \<times> string) list" where
  \<comment> \<open>of scrape\_nodes\_github.py\<close>
  "CATEGORY_MAP_github = CATEGORY_MAP @ [(''workflows'', ''Workflows'')]"

definition word :: "string \<Rightarrow> bool" where
  \<comment> \<open>a match of \<open>\w+\<close>\<close>
  "word s = (s \<noteq> [] \<and> list_all is_word_char s)"

definition drop_suffix :: "string \<Rightarrow> string \<Rightarrow> string" where
  \<comment> \<open>\<open>s\<close> without one trailing \<open>suf\<close>, when it ends with it\<close>
  "drop_suffix suf s = (if suffix suf s then take (length s - length suf) s else s)"

definition node_url_match :: "string \<Rightarrow> (string \<times> string) option" where
  \<comment> \<open>the groups of \<open>re.search(r"/nodes/(\w+)/(\w+)/?$", url)\<close>: \<open>$\<close> also matches before
      a final newline, the slash is optional, and the two words are whole path segments
      after a segment \<open>nodes\<close> that a slash precedes\<close>
  "node_url_match u =
     (let segs = rev (split_on (CHR ''/'') (drop_suffix ''/'' (drop_suffix NL u)))
      in case segs of
           w2 # w1 # n # before # front \<Rightarrow>
             if n = ''nodes'' \<and> word w1 \<and> word w2 then Some (w1, w2) else None
         | other \<Rightarrow> None)"

definition node_path_match :: "string \<Rightarrow> (string \<times> string) option" where
  \<comment> \<open>the groups of \<open>re.search(r"docs/nodes/(\w+)/(\w+)\.md$", file_path)\<close>\<close>
  "node_path_match p =
     (let p1 = drop_suffix NL p;
          segs = rev (split_on (CHR ''/'') (drop_suffix ''.md'' p1))
      in if \<not> suffix ''.md'' p1 then None
         else case segs of
           w2 # w1 # n # before # front \<Rightarrow>
             if n = ''nodes'' \<and> suffix ''docs'' before \<and> word w1 \<and> word w2
             then Some (w1, w2) else None
         | other \<Rightarrow> None)"

record node_info =
  ni_name :: string
  ni_display_name :: string
  ni_category :: string

definition extract_node_info :: "string \<Rightarrow> string \<Rightarrow> node_info option" where
  \<comment> \<open>of scrape\_nodes.py\<close>
  "extract_node_info u ttl =
     (case node_url_match u of
        None \<Rightarrow> None
      | Some (category_slug, node_slug) \<Rightarrow>
          Some \<lparr>ni_name = ttl, ni_display_name = ttl,
                ni_category = (case map_of CATEGORY_MAP category_slug of
                                 Some c \<Rightarrow> c | None \<Rightarrow> humanize category_slug)\<rparr>)"

definition extract_node_info_github :: "string \<Rightarrow> string \<Rightarrow> node_info option" where
  \<comment> \<open>of scrape\_nodes\_github.py\<close>
  "extract_node_info_github file_path ttl =
     (case node_path_match file_path of
        None \<Rightarrow> None
      | Some (category_slug, node_slug) \<Rightarrow>
          if category_slug = ''overview'' then None
          else
            Some \<lparr>ni_name = (if ttl \<noteq> [] then ttl else humanize node_slug),
                  ni_display_name = (if ttl \<noteq> [] then ttl else humanize node_slug),
                  ni_category = (case map_of CATEGORY_MAP_github category_slug of
                                   Some c \<Rightarrow> c | None \<Rightarrow> humanize category_slug)\<rparr>)"

definition BASE_DOCS_URL :: string where
  "BASE_DOCS_URL = ''https://docs.griptapenodes.com/en/stable''"

definition path_to_docs_url :: "string \<Rightarrow> string" where
  "path_to_docs_url file_path =
     (let rel = replace ''.md'' [] (replace ''docs/'' [] file_path)
      in if rel = ''index'' then BASE_DOCS_URL @ ''/'' else BASE_DOCS_URL @ ''/'' @ rel @ ''/'')"

record stats =
  pages_n :: nat
  sections_n :: nat
  code_examples_n :: nat
  nodes_n :: nat
  errors_n :: nat

definition no_stats :: stats where
  "no_stats = \<lparr>pages_n = 0, sections_n = 0, code_examples_n = 0, nodes_n = 0, errors_n = 0\<rparr>"

text \<open>
  The \<open>try\<close> block that writes one page, the same in the three scrapers but for the node
  row (\<open>node\<close> is what \<open>extract_node_info\<close> returned there, \<open>None\<close> in the framework
  scraper, which derives no nodes). The loops stop at the first
  \<open>sqlite3.IntegrityError\<close>, which the \<open>except\<close> clause logs: what was written before it
  stays, and the flag tells whether the loop ran to its end.
\<close>

fun insert_sections :: "int \<Rightarrow> section_rec list \<Rightarrow> db \<times> stats \<Rightarrow> (db \<times> stats) \<times> bool" where
  "insert_sections pid [] (d, st) = ((d, st), True)"
| "insert_sections pid (s # ss) (d, st) =
     (case insert_section d pid s of
        None \<Rightarrow> ((d, st), False)
      | Some d' \<Rightarrow> insert_sections pid ss (d', st\<lparr>sections_n := sections_n st + 1\<rparr>))"

fun insert_examples :: "int \<Rightarrow> code_example list \<Rightarrow> db \<times> stats \<Rightarrow> (db \<times> stats) \<times> bool" where
  "insert_examples pid [] (d, st) = ((d, st), True)"
| "insert_examples pid (ex # exs) (d, st) =
     (let section_id = (if ce_context ex \<noteq> [] then select_section_id d pid (ce_context ex)
                        else None)
      in case insert_code_example d pid section_id ex of
           None \<Rightarrow> ((d, st), False)
         | Some d' \<Rightarrow>
             insert_examples pid exs (d', st\<lparr>code_examples_n := code_examples_n st + 1\<rparr>))"

definition write_page ::
  "string \<Rightarrow> string \<Rightarrow> string \<Rightarrow> string \<Rightarrow> html_node option \<Rightarrow> string list \<Rightarrow> string option
     \<Rightarrow> section_rec list \<Rightarrow> code_example list \<Rightarrow> node_info option \<Rightarrow> db \<times> stats
     \<Rightarrow> db \<times> stats" where
  "write_page u src ttl cont cont_html crumbs lastmod secs exs node ds =
     (case insert_or_replace_page (fst ds) u src ttl cont cont_html crumbs lastmod of
        (d1, page_id) \<Rightarrow>
          (case insert_sections page_id secs (d1, (snd ds)\<lparr>pages_n := pages_n (snd ds) + 1\<rparr>) of
             (ds2, False) \<Rightarrow> ds2
           | (ds2, True) \<Rightarrow>
               (case insert_examples page_id exs ds2 of
                  (ds3, False) \<Rightarrow> ds3
                | (ds3, True) \<Rightarrow>
                    (case node of
                       None \<Rightarrow> ds3
                     | Some ni \<Rightarrow>
                         (case insert_node (fst ds3) (ni_name ni) (ni_display_name ni)
                                 (ni_category ni)
                                 (if cont \<noteq> [] then Some (take 500 cont) else None) page_id of
                            None \<Rightarrow> ds3
                          | Some d4 \<Rightarrow> (d4, (snd ds3)\<lparr>nodes_n := nodes_n (snd ds3) + 1\<rparr>))))))"

text \<open>
  The body of \<open>for page in pages\<close> of the two web scrapers. \<open>parse\<close> is
  \<open>BeautifulSoup(html, "lxml")\<close>. An outcome whose \<open>error\<close> is the empty string (an
  exception with no message) is not an error to \<open>if page["error"]\<close>; its \<open>html\<close> is \<open>None\<close>,
  on which \<open>BeautifulSoup\<close> raises TypeError, and nothing in \<open>scrape\<close> catches it.
\<close>

datatype exn = TypeError | AttributeError

definition truthy :: "string option \<Rightarrow> bool" where
  \<comment> \<open>Python's truth value of \<open>None\<close> or a string\<close>
  "truthy v = (case v of None \<Rightarrow> False | Some s \<Rightarrow> s \<noteq> [])"

definition framework_step ::
  "(string \<Rightarrow> html_node) \<Rightarrow> (string \<Rightarrow> string option) \<Rightarrow> db \<times> stats \<Rightarrow> outcome
     \<Rightarrow> exn + db \<times> stats" where
  "framework_step parse lastmod_map ds page =
     (if truthy (error page) then Inr (fst ds, (snd ds)\<lparr>errors_n := errors_n (snd ds) + 1\<rparr>)
      else case html page of
        None \<Rightarrow> Inl TypeError
      | Some h \<Rightarrow>
          (let data = extract_mkdocs_content (parse h)
           in if title data = [] then Inr ds
              else Inr (write_page (o_url page) ''framework'' (title data) (content_text data)
                          (content_html data) (breadcrumbs data) (lastmod_map (o_url page))
                          (sections data) (code_examples data) None ds)))"

definition nodes_step ::
  "(string \<Rightarrow> html_node) \<Rightarrow> (string \<Rightarrow> string option) \<Rightarrow> db \<times> stats \<Rightarrow> outcome
     \<Rightarrow> exn + db \<times> stats" where
  "nodes_step parse lastmod_map ds page =
     (if truthy (error page) then Inr (fst ds, (snd ds)\<lparr>errors_n := errors_n (snd ds) + 1\<rparr>)
      else case html page of
        None \<Rightarrow> Inl TypeError
      | Some h \<Rightarrow>
          (let data = extract_mkdocs_content (parse h)
           in if title data = [] then Inr ds
              else Inr (write_page (o_url page) ''nodes'' (title data) (content_text data)
                          (content_html data) (breadcrumbs data) (lastmod_map (o_url page))
                          (sections data) (code_examples data)
                          (extract_node_info (o_url page) (title data)) ds)))"

text \<open>
  The GitHub scraper's fetch result and loop body. A result whose \<open>error\<close> is the empty
  string has no content, and \<open>parse_markdown(None)\<close> raises AttributeError.
\<close>

record github_file =
  gh_path :: string
  gh_name :: string
  gh_content :: "string option"
  gh_error :: "string option"

definition github_step :: "db \<times> stats \<Rightarrow> github_file \<Rightarrow> exn + db \<times> stats" where
  "github_step ds result =
     (if truthy (gh_error result)
      then Inr (fst ds, (snd ds)\<lparr>errors_n := errors_n (snd ds) + 1\<rparr>)
      else case gh_content result of
        None \<Rightarrow> Inl AttributeError
      | Some content \<Rightarrow>
          (let data = parse_markdown content;
               ttl = (if title data = [] then humanize (replace ''.md'' [] (gh_name result))
                      else title data)
           in Inr (write_page (path_to_docs_url (gh_path result)) ''nodes'' ttl
                     (content_text data) None [] None (sections data) (code_examples data)
                     (extract_node_info_github (gh_path result) ttl) ds)))"

fun run_loop :: "('s \<Rightarrow> 'a \<Rightarrow> exn + 's) \<Rightarrow> 'a list \<Rightarrow> 's \<Rightarrow> exn + 's" where
  \<comment> \<open>a \<open>for\<close> loop that an uncaught exception leaves\<close>
  "run_loop step [] s = Inr s"
| "run_loop step (x # xs) s =
     (case step s x of Inl e \<Rightarrow> Inl e | Inr s' \<Rightarrow> run_loop step xs s')"

definition scrape_framework ::
  "(string \<Rightarrow> html_node) \<Rightarrow> (string \<Rightarrow> string option) \<Rightarrow> outcome list \<Rightarrow> db \<Rightarrow> exn + db \<times> stats" where
  \<comment> \<open>\<open>scrape\<close> of scrape\_framework.py from the fetched pages on\<close>
  "scrape_framework parse lastmod_map pages d =
     run_loop (framework_step parse lastmod_map) pages (d, no_stats)"

definition scrape_nodes ::
  "(string \<Rightarrow> html_node) \<Rightarrow> (string \<Rightarrow> string option) \<Rightarrow> outcome list \<Rightarrow> db \<Rightarrow> exn + db \<times> stats" where
  "scrape_nodes parse lastmod_map pages d =
     run_loop (nodes_step parse lastmod_map) pages (d, no_stats)"

definition scrape_nodes_github :: "github_file list \<Rightarrow> db \<Rightarrow> exn + db \<times> stats" where
  "scrape_nodes_github results d = run_loop github_step results (d, no_stats)"

section \<open>The query layer (src/griptape\_mcp/db.py)\<close>

definition ascii_lower :: "char \<Rightarrow> char" where
  \<comment> \<open>SQLite's LIKE folds the case of the ASCII letters only\<close>
  "ascii_lower c = (let n = (of_char c :: nat) in
     if 65 \<le> n \<and> n \<le> 90 then char_of (n + 32) else c)"

fun sql_like :: "string \<Rightarrow> string \<Rightarrow> bool" where
  \<comment> \<open>\<open>s LIKE pattern\<close> (the pattern comes first here): \<open>%\<close> matches any run of
      characters, \<open>_\<close> any one character, any other character itself up to ASCII case\<close>
  "sql_like [] [] = True"
| "sql_like [] (c # cs) = False"
| "sql_like (p # ps) [] = (p = CHR ''%'' \<and> sql_like ps [])"
| "sql_like (p # ps) (c # cs) =
     (if p = CHR ''%'' then sql_like ps (c # cs) \<or> sql_like (p # ps) cs
      else (p = CHR ''_'' \<or> ascii_lower p = ascii_lower c) \<and> sql_like ps cs)"

definition like_opt :: "string \<Rightarrow> string option \<Rightarrow> bool" where
  \<comment> \<open>LIKE on a nullable column: NULL matches nothing\<close>
  "like_opt pat v = (case v of None \<Rightarrow> False | Some s \<Rightarrow> sql_like pat s)"

definition no_spaces :: "string \<Rightarrow> string" where
  \<comment> \<open>Python's \<open>s.replace(" ", "")\<close> and SQL's \<open>REPLACE(s, ' ', '')\<close>\<close>
  "no_spaces s = filter (\<lambda>c. c \<noteq> CHR '' '') s"

definition contains_pattern :: "string \<Rightarrow> string" where
  \<comment> \<open>the f-string \<open>%{name}%\<close>\<close>
  "contains_pattern s = ''%'' @ s @ ''%''"

definition exact_match :: "string \<Rightarrow> node_row \<Rightarrow> bool" where
  \<comment> \<open>\<open>n.name = ? OR n.display_name = ?\<close>\<close>
  "exact_match q n = (n_name n = q \<or> n_display_name n = Some q)"

definition like_match :: "string \<Rightarrow> node_row \<Rightarrow> bool" where
  \<comment> \<open>\<open>n.name LIKE ? OR n.display_name LIKE ?\<close>\<close>
  "like_match q n =
     (sql_like (contains_pattern q) (n_name n) \<or> like_opt (contains_pattern q) (n_display_name n))"

definition stripped_match :: "string \<Rightarrow> node_row \<Rightarrow> bool" where
  \<comment> \<open>\<open>REPLACE(n.name, ' ', '') LIKE ? OR REPLACE(n.display_name, ' ', '') LIKE ?\<close>\<close>
  "stripped_match q n =
     (sql_like (contains_pattern (no_spaces q)) (no_spaces (n_name n)) \<or>
      like_opt (contains_pattern (no_spaces q)) (map_option no_spaces (n_display_name n)))"

record node_result =
  nr_node :: node_row
  nr_url :: "string option"
  nr_content :: "string option"

definition join_page :: "db \<Rightarrow> node_row \<Rightarrow> node_result" where
  \<comment> \<open>\<open>SELECT n.*, p.url, p.content FROM nodes n LEFT JOIN pages p ON p.id = n.page_id\<close>\<close>
  "join_page d n =
     (case (case n_page_id n of
              None \<Rightarrow> None | Some i \<Rightarrow> find (\<lambda>p. p_id p = i) (db_pages d)) of
        None \<Rightarrow> \<lparr>nr_node = n, nr_url = None, nr_content = None\<rparr>
      | Some p \<Rightarrow> \<lparr>nr_node = n, nr_url = Some (p_url p), nr_content = Some (p_content p)\<rparr>)"

text \<open>
  \<open>get_node_by_name\<close>. Each query ends in \<open>LIMIT 1\<close> with no ORDER BY; the engine scans
  \<open>nodes\<close> in rowid order, so the row returned is the first match of the list.
\<close>

definition get_node_by_name :: "db \<Rightarrow> string \<Rightarrow> node_result option" where
  "get_node_by_name d name =
     (case find (exact_match name) (db_nodes d) of
        Some row \<Rightarrow> Some (join_page d row)
      | None \<Rightarrow>
          (case find (like_match name) (db_nodes d) of
             Some row \<Rightarrow> Some (join_page d row)
           | None \<Rightarrow>
               (case find (stripped_match name) (db_nodes d) of
                  Some row \<Rightarrow> Some (join_page d row)
                | None \<Rightarrow> None)))"

text \<open>
  \<open>search_code_examples\<close>. The three queries are answered by the database: for the given
  query string, \<open>section_fts n\<close>, \<open>page_fts n\<close> and \<open>code_like n\<close> are the rows that the
  query of layer 1, 2 and 3 returns when its \<open>LIMIT\<close> parameter is \<open>n\<close>; \<open>None\<close> is
  \<open>sqlite3.OperationalError\<close> (a query string that is not a full-text expression). A row
  is its \<open>ce_id\<close> (the primary key of the code example, never NULL) and its other columns.
  \<open>_collect\<close> pops \<open>ce_id\<close> from each row it keeps; the model keeps it beside the row, and
  the function's result is the list without it.
\<close>

record 'a answers =
  section_fts :: "int \<Rightarrow> (int \<times> 'a) list option"
  page_fts :: "int \<Rightarrow> (int \<times> 'a) list option"
  code_like :: "int \<Rightarrow> (int \<times> 'a) list"

fun collect :: "int set \<times> (int \<times> 'a) list \<Rightarrow> (int \<times> 'a) list \<Rightarrow> int set \<times> (int \<times> 'a) list" where
  \<comment> \<open>\<open>_collect(rows)\<close> on the variables \<open>seen\<close> and \<open>results\<close>\<close>
  "collect (seen, results) [] = (seen, results)"
| "collect (seen, results) (row # rows) =
     (if fst row \<in> seen then collect (seen, results) rows
      else collect (insert (fst row) seen, results @ [row]) rows)"

definition py_prefix :: "int \<Rightarrow> 'b list \<Rightarrow> 'b list" where
  \<comment> \<open>\<open>xs[:n]\<close>; a negative \<open>n\<close> counts from the end\<close>
  "py_prefix n xs = (if n < 0 then take (length xs - nat (- n)) xs else take (nat n) xs)"

definition after_layer1 :: "'a answers \<Rightarrow> int \<Rightarrow> int set \<times> (int \<times> 'a) list" where
  "after_layer1 a limit =
     (case section_fts a limit of
        None \<Rightarrow> ({}, [])
      | Some rows \<Rightarrow> collect ({}, []) rows)"

definition after_layer2 :: "'a answers \<Rightarrow> int \<Rightarrow> int set \<times> (int \<times> 'a) list" where
  "after_layer2 a limit =
     (let s1 = after_layer1 a limit
      in if int (length (snd s1)) < limit then
           (case page_fts a (limit - int (length (snd s1))) of
              None \<Rightarrow> s1
            | Some rows \<Rightarrow> collect s1 rows)
         else s1)"

definition after_layer3 :: "'a answers \<Rightarrow> int \<Rightarrow> int set \<times> (int \<times> 'a) list" where
  "after_layer3 a limit =
     (let s2 = after_layer2 a limit
      in if int (length (snd s2)) < limit
         then collect s2 (code_like a (limit - int (length (snd s2))))
         else s2)"

definition search_code_examples_rows :: "'a answers \<Rightarrow> int \<Rightarrow> (int \<times> 'a) list" where
  \<comment> \<open>\<open>results[:limit]\<close>, each row with its \<open>ce_id\<close>\<close>
  "search_code_examples_rows a limit = py_prefix limit (snd (after_layer3 a limit))"

definition search_code_examples :: "'a answers \<Rightarrow> int \<Rightarrow> 'a list" where
  "search_code_examples a limit = map snd (search_code_examples_rows a limit)"

text \<open>Vocabulary: the rows that each layer adds to \<open>results\<close>.\<close>

definition layer1_part :: "'a answers \<Rightarrow> int \<Rightarrow> (int \<times> 'a) list" where
  "layer1_part a limit = snd (after_layer1 a limit)"

definition layer2_part :: "'a answers \<Rightarrow> int \<Rightarrow> (int \<times> 'a) list" where
  "layer2_part a limit = drop (length (snd (after_layer1 a limit))) (snd (after_layer2 a limit))"

definition layer3_part :: "'a answers \<Rightarrow> int \<Rightarrow> (int \<times> 'a) list" where
  "layer3_part a limit = drop (length (snd (after_layer2 a limit))) (snd (after_layer3 a limit))"

definition layer1_rows :: "'a answers \<Rightarrow> int \<Rightarrow> (int \<times> 'a) list" where
  \<comment> \<open>what the query of layer 1 returned\<close>
  "layer1_rows a limit = (case section_fts a limit of None \<Rightarrow> [] | Some rows \<Rightarrow> rows)"

definition layer2_rows :: "'a answers \<Rightarrow> int \<Rightarrow> (int \<times> 'a) list" where
  \<comment> \<open>what the query of layer 2 returned, when it ran\<close>
  "layer2_rows a limit =
     (if int (length (snd (after_layer1 a limit))) < limit
      then (case page_fts a (limit - int (length (snd (after_layer1 a limit)))) of
              None \<Rightarrow> [] | Some rows \<Rightarrow> rows)
      else [])"

definition layer3_rows :: "'a answers \<Rightarrow> int \<Rightarrow> (int \<times> 'a) list" where
  \<comment> \<open>what the query of layer 3 returned, when it ran\<close>
  "layer3_rows a limit =
     (if int (length (snd (after_layer2 a limit))) < limit
      then code_like a (limit - int (length (snd (after_layer2 a limit))))
      else [])"

definition collected :: "int set \<times> (int \<times> 'a) list \<Rightarrow> bool" where
  \<comment> \<open>\<open>seen\<close> holds the ids of \<open>results\<close>, and no id occurs twice in \<open>results\<close>\<close>
  "collected s = (fst s = fst ` set (snd s) \<and> distinct (map fst (snd s)))"

definition matches_somehow :: "string \<Rightarrow> node_row \<Rightarrow> bool" where
  \<comment> \<open>a match at one of the three tiers\<close>
  "matches_somehow q n = (exact_match q n \<or> like_match q n \<or> stripped_match q n)"

section \<open>Properties of the fetcher\<close>

lemma fetch_loop_backoff:
  "\<forall>a\<in>set pre. rate_limited (net a) \<Longrightarrow>
   fetch_loop net u (pre @ rest) =
     (fst (fetch_loop net u rest), backoff pre @ snd (fetch_loop net u rest))"
proof (induction pre)
  case Nil
  then show ?case by (simp add: backoff_def)
next
  case (Cons a pre)
  then obtain resp where r: "net a = Replied resp" "status_code resp = 429"
    by (auto simp: rate_limited_def split: reply.splits)
  from Cons have "fetch_loop net u (pre @ rest) =
     (fst (fetch_loop net u rest), backoff pre @ snd (fetch_loop net u rest))" by simp
  then show ?case using r by (simp add: backoff_def)
qed

lemma fetch_loop_requests: "requests (snd (fetch_loop net u as)) \<le> length as"
proof (induction as)
  case Nil
  then show ?case by (simp add: requests_def)
next
  case (Cons a as)
  then show ?case
    by (auto simp: requests_def Let_def split: reply.splits content_length.splits prod.splits)
qed

lemma fetch_loop_accept:
  "net a = Replied resp \<Longrightarrow> is_success (status_code resp) \<Longrightarrow> within_limits resp \<Longrightarrow>
   fetch_loop net u (a # rest) =
     (\<lparr>o_url = u, html = Some (body_text resp), error = None\<rparr>, [Get, Sleep REQUEST_DELAY])"
  by (auto simp: within_limits_def is_success_def Let_def MAX_RESPONSE_SIZE_def
      split: content_length.splits)

lemma fetch_loop_shape:
  "o_url (fst (fetch_loop net u as)) = u \<and>
   (html (fst (fetch_loop net u as)) = None) \<noteq> (error (fst (fetch_loop net u as)) = None)"
proof (induction as)
  case Nil
  then show ?case by (simp add: failed_def)
next
  case (Cons a as)
  then show ?case
    by (auto simp: failed_def Let_def split: reply.splits content_length.splits prod.splits)
qed

lemma fetch_pages_nth:
  "i < length urls \<Longrightarrow> fetch_pages nets urls ! i = fst (fetch_one (nets i) (urls ! i))"
  by (simp add: fetch_pages_def)

text \<open>
  Claim C6. A 429 reply is retried, at most \<open>MAX_RETRIES = 5\<close> requests in all, with a wait
  of 10, 20, 30, ... seconds after the first, second, third, ... such reply. When \<open>k < 5\<close>
  replies of 429 are followed by a successful reply within the size limit, the fetch
  returns that reply's text (and its await points are exactly the \<open>k\<close> requests with their
  waits, the request that succeeds and the inter-request delay). When the first five
  replies are all 429 the outcome is the error "Max retries exceeded (429)", after five
  requests. Whatever the network does, \<open>fetch_one\<close> returns an outcome (it is a total
  function in which every exception of the source is a branch), it makes at most five
  requests, and the outcome at a position of \<open>fetch_pages\<close> is that of its own task alone.
\<close>

theorem fetch_one_retries_429:
  "(k < MAX_RETRIES \<and> (\<forall>i<k. rate_limited (net i)) \<and> net k = Replied resp \<and>
      is_success (status_code resp) \<and> within_limits resp \<longrightarrow>
      fetch_one net u =
        (\<lparr>o_url = u, html = Some (body_text resp), error = None\<rparr>,
         backoff [0..<k] @ [Get, Sleep REQUEST_DELAY]))
   \<and> ((\<forall>i<MAX_RETRIES. rate_limited (net i)) \<longrightarrow>
        fetch_one net u = (failed u ''Max retries exceeded (429)'', backoff [0..<MAX_RETRIES]))
   \<and> requests (snd (fetch_one net u)) \<le> MAX_RETRIES
   \<and> (j < length urls \<longrightarrow> fetch_pages nets urls ! j = fst (fetch_one (nets j) (urls ! j)))"
proof (intro conjI impI)
  assume h: "k < MAX_RETRIES \<and> (\<forall>i<k. rate_limited (net i)) \<and> net k = Replied resp \<and>
      is_success (status_code resp) \<and> within_limits resp"
  then have "k < MAX_RETRIES" by simp
  have "[0..<k + (MAX_RETRIES - k)] = [0..<k] @ [k..<k + (MAX_RETRIES - k)]"
    by (rule upt_add_eq_append) simp
  with \<open>k < MAX_RETRIES\<close> have split: "[0..<MAX_RETRIES] = [0..<k] @ k # [Suc k..<MAX_RETRIES]"
    by (simp add: upt_conv_Cons)
  from h have "\<forall>a\<in>set [0..<k]. rate_limited (net a)" by simp
  then have "fetch_loop net u ([0..<k] @ k # [Suc k..<MAX_RETRIES]) =
      (fst (fetch_loop net u (k # [Suc k..<MAX_RETRIES])),
       backoff [0..<k] @ snd (fetch_loop net u (k # [Suc k..<MAX_RETRIES])))"
    by (rule fetch_loop_backoff)
  moreover from h have "fetch_loop net u (k # [Suc k..<MAX_RETRIES]) =
      (\<lparr>o_url = u, html = Some (body_text resp), error = None\<rparr>, [Get, Sleep REQUEST_DELAY])"
    by (intro fetch_loop_accept) simp_all
  ultimately show "fetch_one net u =
        (\<lparr>o_url = u, html = Some (body_text resp), error = None\<rparr>,
         backoff [0..<k] @ [Get, Sleep REQUEST_DELAY])"
    by (simp add: fetch_one_def split)
next
  assume "\<forall>i<MAX_RETRIES. rate_limited (net i)"
  then have "\<forall>a\<in>set [0..<MAX_RETRIES]. rate_limited (net a)" by simp
  then have "fetch_loop net u ([0..<MAX_RETRIES] @ []) =
      (fst (fetch_loop net u []), backoff [0..<MAX_RETRIES] @ snd (fetch_loop net u []))"
    by (rule fetch_loop_backoff)
  then show "fetch_one net u =
      (failed u ''Max retries exceeded (429)'', backoff [0..<MAX_RETRIES])"
    by (simp add: fetch_one_def)
next
  show "requests (snd (fetch_one net u)) \<le> MAX_RETRIES"
    using fetch_loop_requests [of net u "[0..<MAX_RETRIES]"] by (simp add: fetch_one_def)
next
  assume "j < length urls"
  then show "fetch_pages nets urls ! j = fst (fetch_one (nets j) (urls ! j))"
    by (rule fetch_pages_nth)
qed

text \<open>
  The scenario of the specification: three replies of 429, then a page. The waits are
  10, 20 and 30 seconds, the page's text is returned, and four requests were made.
  With 429 for ever, five requests are made and the outcome is the error.
\<close>

theorem fetch_one_retries_429_witness:
  "fetch_one
     (\<lambda>i. if i < 3
           then Replied \<lparr>status_code = 429, declared_length = Absent, body_text = [],
                         status_error = ''429''\<rparr>
           else Replied \<lparr>status_code = 200, declared_length = Declared 5, body_text = ''hello'',
                         status_error = []\<rparr>)
     ''https://docs.griptape.ai/''
   = (\<lparr>o_url = ''https://docs.griptape.ai/'', html = Some ''hello'', error = None\<rparr>,
      [Get, Sleep 10, Get, Sleep 20, Get, Sleep 30, Get, Sleep 1])
   \<and> fetch_one
     (\<lambda>i. Replied \<lparr>status_code = 429, declared_length = Absent, body_text = [],
                    status_error = ''429''\<rparr>)
     ''u''
   = (\<lparr>o_url = ''u'', html = None, error = Some ''Max retries exceeded (429)''\<rparr>,
      [Get, Sleep 10, Get, Sleep 20, Get, Sleep 30, Get, Sleep 40, Get, Sleep 50])"
proof -
  let ?r429 = "\<lparr>status_code = 429, declared_length = Absent, body_text = [],
                 status_error = ''429''\<rparr>"
  let ?ok = "\<lparr>status_code = 200, declared_length = Declared 5, body_text = ''hello'',
               status_error = []\<rparr>"
  let ?net = "\<lambda>i::nat. if i < 3 then Replied ?r429 else Replied ?ok"
  have up3: "[0..<3] = [0, 1, 2]" and up5: "[0..<5] = [0, 1, 2, 3, 4]"
    by (simp_all add: upt_rec)
  have "fetch_one ?net ''https://docs.griptape.ai/'' =
      (\<lparr>o_url = ''https://docs.griptape.ai/'', html = Some (body_text ?ok), error = None\<rparr>,
       backoff [0..<3] @ [Get, Sleep REQUEST_DELAY])"
    using fetch_one_retries_429 [of 3 ?net ?ok "''https://docs.griptape.ai/''"]
    by (simp add: MAX_RETRIES_def rate_limited_def is_success_def within_limits_def
        MAX_RESPONSE_SIZE_def)
  moreover have "fetch_one (\<lambda>i. Replied ?r429) ''u'' =
      (failed ''u'' ''Max retries exceeded (429)'', backoff [0..<MAX_RETRIES])"
    using fetch_one_retries_429 [of 0 "\<lambda>i. Replied ?r429" ?r429 "''u''"]
    by (simp add: rate_limited_def)
  ultimately show ?thesis
    by (simp add: up3 up5 backoff_def REQUEST_DELAY_def MAX_RETRIES_def failed_def)
qed

text \<open>
  Claim C10. \<open>fetch_pages\<close> returns one outcome per submitted URL, in submission order:
  the list of the outcomes' \<open>url\<close> fields is the input list. Every outcome has exactly one
  of \<open>html\<close> and \<open>error\<close> set (the other is \<open>None\<close>).
\<close>

theorem fetch_pages_aligned:
  "length (fetch_pages nets urls) = length urls
   \<and> map o_url (fetch_pages nets urls) = urls
   \<and> list_all (\<lambda>r. (html r = None) \<noteq> (error r = None)) (fetch_pages nets urls)"
proof (intro conjI)
  show "length (fetch_pages nets urls) = length urls"
    by (simp add: fetch_pages_def)
  show "map o_url (fetch_pages nets urls) = urls"
    by (rule nth_equalityI) (simp_all add: fetch_pages_def fetch_one_def fetch_loop_shape)
  show "list_all (\<lambda>r. (html r = None) \<noteq> (error r = None)) (fetch_pages nets urls)"
    unfolding list_all_iff
  proof
    fix r
    assume "r \<in> set (fetch_pages nets urls)"
    then obtain i u where "r = fst (fetch_loop (nets i) u [0..<MAX_RETRIES])"
      by (auto simp: fetch_pages_def fetch_one_def)
    then show "(html r = None) \<noteq> (error r = None)"
      using fetch_loop_shape [of "nets i" u "[0..<MAX_RETRIES]"] by simp
  qed
qed

section \<open>Properties of the markdown extractor\<close>

lemma level_heading_save_section:
  "map level_heading (save_section st) = map level_heading (st_sections st)"
  by (cases "st_sections st" rule: rev_cases) (auto simp: save_section_def level_heading_def)

lemma md_step_title:
  "st_title (md_step st l) =
     (if prefix fence l \<or> in_code_block st then st_title st
      else case heading_match l of None \<Rightarrow> st_title st
           | Some h \<Rightarrow> if fst h = 1 \<and> st_title st = [] then snd h else st_title st)"
  by (auto simp: md_step_def Let_def split: option.splits)

lemma md_step_sections:
  "map level_heading (st_sections (md_step st l)) =
     (if prefix fence l \<or> in_code_block st then map level_heading (st_sections st)
      else case heading_match l of None \<Rightarrow> map level_heading (st_sections st)
           | Some h \<Rightarrow> if fst h = 1 \<and> st_title st = [] then map level_heading (st_sections st)
                        else map level_heading (st_sections st) @ [h])"
  by (auto simp: md_step_def Let_def level_heading_save_section level_heading_def
      split: option.splits)

lemma md_step_in_code_block:
  "in_code_block (md_step st l) =
     (if prefix fence l then \<not> in_code_block st else in_code_block st)"
  by (auto simp: md_step_def Let_def split: option.splits)

lemma md_loop_headings:
  "st_title (foldl md_step st ls) =
     (if st_title st \<noteq> [] then st_title st
      else title_heading (headings_of (in_code_block st) ls))
   \<and> map level_heading (st_sections (foldl md_step st ls)) =
     map level_heading (st_sections st) @
       (if st_title st \<noteq> [] then headings_of (in_code_block st) ls
        else emitted_headings (headings_of (in_code_block st) ls))"
proof (induction ls arbitrary: st)
  case Nil
  then show ?case by (simp add: title_heading_def emitted_headings_def)
next
  case (Cons l ls)
  show ?case
    apply (simp only: foldl_Cons Cons.IH md_step_title md_step_sections md_step_in_code_block)
    apply (auto simp: title_heading_def emitted_headings_def titling_def split: option.splits)
    done
qed

text \<open>
  Claim C4, as stated, fails: in the text \<open>## Setup\<close>, \<open># Title\<close> the level-1 heading
  comes after another heading, and it still becomes the title (and is not a section).
\<close>

theorem parse_markdown_late_title:
  "title (parse_markdown (''## Setup'' @ NL @ ''# Title'')) = ''Title''
   \<and> map level_heading (sections (parse_markdown (''## Setup'' @ NL @ ''# Title'')))
       = [(2, ''Setup'')]"
  by (simp add: parse_markdown_def NL_def md_step_def md_init_def heading_match_def fence_def
      save_section_def level_heading_def make_anchor_def strip_def lstrip_def rstrip_def
      is_space_def Let_def eval_nat_numeral)

text \<open>
  Claim C4, amended. The title is the text of the first level-1 heading with non-empty
  text among the headings of the document (the heading lines outside code fences),
  wherever it stands: also after other headings. That heading is not emitted as a
  section, and neither are the level-1 headings before it (they have no text); every other
  heading is emitted as a section, in order, with its level and text.
\<close>

theorem parse_markdown_title:
  "title (parse_markdown content) =
     title_heading (headings_of False (split_on (CHR 0x0A) content))
   \<and> map level_heading (sections (parse_markdown content)) =
     emitted_headings (headings_of False (split_on (CHR 0x0A) content))"
  using md_loop_headings [of md_init "split_on (CHR 0x0A) content"]
  by (simp add: parse_markdown_def Let_def level_heading_save_section md_init_def)

section \<open>Properties of the HTML extractor\<close>

lemma sections_sites:
  "sections_of_node c siblings =
     map (\<lambda>(h, sibs). make_section h sibs)
       (filter (\<lambda>(h, sibs). named [''h2'', ''h3'', ''h4''] h) ((c, siblings) # sites_below c))"
  "sections_of_list cs =
     map (\<lambda>(h, sibs). make_section h sibs)
       (filter (\<lambda>(h, sibs). named [''h2'', ''h3'', ''h4''] h) (sites cs))"
  by (induction c siblings and cs rule: sections_of_node_sections_of_list.induct)
     (auto simp: named_def)

lemma make_section_stop:
  assumes "named [''h1'', ''h2'', ''h3'', ''h4''] stop"
    and "\<forall>m\<in>set mid. \<not> named [''h1'', ''h2'', ''h3'', ''h4''] m"
  shows "s_content (make_section h (mid @ stop # rest)) =
     join NL (map (get_text_strip NL) (filter is_tag mid))"
proof -
  define P where "P = (\<lambda>s. \<not> named [''h1'', ''h2'', ''h3'', ''h4''] s)"
  from assms(1) have t: "is_tag stop"
    by (cases stop) (simp_all add: named_def is_tag_def)
  have "\<And>x. x \<in> set (filter is_tag mid) \<Longrightarrow> P x"
    using assms(2) by (simp add: P_def)
  then have "takeWhile P (filter is_tag mid @ stop # filter is_tag rest) =
      filter is_tag mid @ takeWhile P (stop # filter is_tag rest)"
    by (rule takeWhile_append2)
  moreover have "\<not> P stop" using assms(1) by (simp add: P_def)
  ultimately have "takeWhile P (filter is_tag (mid @ stop # rest)) = filter is_tag mid"
    using t by simp
  then show ?thesis
    unfolding make_section_def P_def by simp
qed

lemma make_section_end:
  assumes "\<forall>m\<in>set sibs. \<not> named [''h1'', ''h2'', ''h3'', ''h4''] m"
  shows "s_content (make_section h sibs) = join NL (map (get_text_strip NL) (filter is_tag sibs))"
proof -
  define P where "P = (\<lambda>s. \<not> named [''h1'', ''h2'', ''h3'', ''h4''] s)"
  have "\<forall>x\<in>set (filter is_tag sibs). P x"
    using assms by (simp add: P_def)
  then have "takeWhile P (filter is_tag sibs) = filter is_tag sibs"
    by (simp only: takeWhile_eq_all_conv)
  then show ?thesis
    unfolding make_section_def P_def by (simp del: takeWhile_eq_all_conv)
qed

text \<open>
  Claim C3, as stated, fails. Under one parent: a heading \<open>h2\<close> A, a paragraph \<open>x\<close>, a
  deeper heading \<open>h3\<close> B, a paragraph \<open>y\<close>, and a heading \<open>h2\<close> C. The content between A and
  the next heading of equal or higher level (C) contains \<open>y\<close>, but the body extracted
  for A is \<open>x\<close> alone: the scan stops at B.
\<close>

theorem html_section_stops_at_deeper_heading:
  "map (\<lambda>s. (heading s, s_content s))
     (sections (extract_mkdocs_content
        (Tag ''[document]'' [] []
           [Tag ''article'' [] []
              [Tag ''h2'' [] [] [Text NavigableString ''A''], Tag ''p'' [] [] [Text NavigableString ''x''],
               Tag ''h3'' [] [] [Text NavigableString ''B''], Tag ''p'' [] [] [Text NavigableString ''y''],
               Tag ''h2'' [] [] [Text NavigableString ''C'']]])))
   = [(''A'', ''x''), (''B'', ''y''), (''C'', [])]
   \<and> body_to_same_level (Tag ''h2'' [] [] [Text NavigableString ''A''])
       [Tag ''p'' [] [] [Text NavigableString ''x''], Tag ''h3'' [] [] [Text NavigableString ''B''], Tag ''p'' [] [] [Text NavigableString ''y''],
        Tag ''h2'' [] [] [Text NavigableString ''C'']]
     = ''x'' @ NL @ ''B'' @ NL @ ''y''"
  by (simp add: extract_mkdocs_content_def select_content_def first_index_def has_class_def
      named_def Let_def make_section_def heading_text_of_def get_text_strip_def all_strings_def interesting_string_types_def string_containers_def strip_def
      lstrip_def rstrip_def rstrip_chars_def pilcrow_def is_space_def is_tag_def NL_def
      get_attr_def body_to_same_level_def heading_level_def)

text \<open>
  A sibling element that is not itself a heading is taken whole. Under one parent: a
  heading \<open>h2\<close> B, a \<open>div\<close> holding a heading \<open>h3\<close> C and a paragraph \<open>c\<close>, and a heading
  \<open>h2\<close> D. The nested heading does not end the body of B, which is the text of the whole
  \<open>div\<close>; the paragraph is also the body of C.
\<close>

lemma html_section_takes_nested_heading:
  "map (\<lambda>s. (heading s, s_content s))
     (sections (extract_mkdocs_content
        (Tag ''[document]'' [] []
           [Tag ''article'' [] []
              [Tag ''h2'' [] [] [Text NavigableString ''B''],
               Tag ''div'' [] []
                 [Tag ''h3'' [] [] [Text NavigableString ''C''],
                  Tag ''p'' [] [] [Text NavigableString ''c'']],
               Tag ''h2'' [] [] [Text NavigableString ''D'']]])))
   = [(''B'', ''C'' @ NL @ ''c''), (''C'', ''c''), (''D'', [])]"
  by (simp add: extract_mkdocs_content_def select_content_def first_index_def has_class_def
      named_def Let_def make_section_def heading_text_of_def get_text_strip_def
      all_strings_def interesting_string_types_def string_containers_def strip_def
      lstrip_def rstrip_def rstrip_chars_def pilcrow_def is_space_def is_tag_def NL_def
      get_attr_def)

text \<open>
  The strings of a \<open>script\<close> (and likewise of a \<open>style\<close>, \<open>template\<close>, \<open>rt\<close> or \<open>rp\<close>) are
  reported only when the text is asked of that element itself. A \<open>script\<close> that follows a
  heading as a sibling is therefore part of the section's body, while the text of the page,
  asked of the content element, leaves it out.
\<close>

lemma html_script_sibling:
  "(let r = extract_mkdocs_content
        (Tag ''[document]'' [] []
           [Tag ''article'' [] []
              [Tag ''h2'' [] [] [Text NavigableString ''A''],
               Tag ''script'' [] [] [Text Script ''var x''],
               Tag ''p'' [] [] [Text NavigableString ''t'', Text Comment ''note'']]])
    in (content_text r, map (\<lambda>s. (heading s, s_content s)) (sections r)))
   = (''A'' @ NL @ ''t'', [(''A'', ''var x'' @ NL @ ''t'')])"
  by (simp add: extract_mkdocs_content_def select_content_def first_index_def has_class_def
      named_def Let_def make_section_def heading_text_of_def get_text_strip_def
      all_strings_def interesting_string_types_def string_containers_def strip_def
      lstrip_def rstrip_def rstrip_chars_def pilcrow_def is_space_def is_tag_def NL_def
      get_attr_def)

text \<open>
  Claim C3, amended. The sections of a page are those of the elements \<open>h2\<close>, \<open>h3\<close>, \<open>h4\<close>
  below the content element, in document order, each made from the heading and the
  siblings that follow it under the same parent. A section's body is the text of the
  sibling elements after its heading, each taken whole with all that is nested in it and
  joined by newlines, up to the first sibling element that is itself named \<open>h1\<close>, \<open>h2\<close>,
  \<open>h3\<close> or \<open>h4\<close>, whatever its level, or to the last sibling when no such element follows.
  Sibling strings that stand in no element are not taken.
\<close>

theorem html_section_body:
  "sections (extract_mkdocs_content soup) =
     (case select_content (descendants soup) of
        None \<Rightarrow> []
      | Some ci \<Rightarrow>
          map (\<lambda>(h, sibs). make_section h sibs)
            (filter (\<lambda>(h, sibs). named [''h2'', ''h3'', ''h4''] h)
               (sites (tag_children (descendants soup ! ci)))))
   \<and> (named [''h1'', ''h2'', ''h3'', ''h4''] stop \<and>
       (\<forall>m\<in>set mid. \<not> named [''h1'', ''h2'', ''h3'', ''h4''] m) \<longrightarrow>
       s_content (make_section h (mid @ stop # rest)) =
         join NL (map (get_text_strip NL) (filter is_tag mid)))
   \<and> ((\<forall>m\<in>set sibs. \<not> named [''h1'', ''h2'', ''h3'', ''h4''] m) \<longrightarrow>
       s_content (make_section h sibs) =
         join NL (map (get_text_strip NL) (filter is_tag sibs)))"
proof (intro conjI impI)
  show "sections (extract_mkdocs_content soup) =
     (case select_content (descendants soup) of
        None \<Rightarrow> []
      | Some ci \<Rightarrow>
          map (\<lambda>(h, sibs). make_section h sibs)
            (filter (\<lambda>(h, sibs). named [''h2'', ''h3'', ''h4''] h)
               (sites (tag_children (descendants soup ! ci)))))"
    by (simp add: extract_mkdocs_content_def Let_def sections_sites(2) split: option.splits)
next
  assume "named [''h1'', ''h2'', ''h3'', ''h4''] stop \<and>
       (\<forall>m\<in>set mid. \<not> named [''h1'', ''h2'', ''h3'', ''h4''] m)"
  then show "s_content (make_section h (mid @ stop # rest)) =
         join NL (map (get_text_strip NL) (filter is_tag mid))"
    using make_section_stop [of stop mid h rest] by blast
next
  assume "\<forall>m\<in>set sibs. \<not> named [''h1'', ''h2'', ''h3'', ''h4''] m"
  then show "s_content (make_section h sibs) =
         join NL (map (get_text_strip NL) (filter is_tag sibs))"
    by (rule make_section_end)
qed

text \<open>
  The body of B in the document with the nested heading: the text of the whole \<open>div\<close>,
  ended by the sibling heading D.
\<close>

theorem html_section_body_witness:
  "s_content (make_section (Tag ''h2'' [] [] [Text NavigableString ''B''])
     ([Tag ''div'' [] []
         [Tag ''h3'' [] [] [Text NavigableString ''C''],
          Tag ''p'' [] [] [Text NavigableString ''c'']]] @
      Tag ''h2'' [] [] [Text NavigableString ''D''] # []))
   = ''C'' @ NL @ ''c''"
proof -
  let ?div = "Tag ''div'' [] []
         [Tag ''h3'' [] [] [Text NavigableString ''C''],
          Tag ''p'' [] [] [Text NavigableString ''c'']]"
  let ?stop = "Tag ''h2'' [] [] [Text NavigableString ''D'']"
  have "named [''h1'', ''h2'', ''h3'', ''h4''] ?stop \<and>
      (\<forall>m\<in>set [?div]. \<not> named [''h1'', ''h2'', ''h3'', ''h4''] m)"
    by (simp add: named_def)
  then have "s_content (make_section (Tag ''h2'' [] [] [Text NavigableString ''B''])
     ([?div] @ ?stop # [])) =
      join NL (map (get_text_strip NL) (filter is_tag [?div]))"
    by (rule html_section_body [THEN conjunct2, THEN conjunct1, THEN mp])
  then show ?thesis
    by (simp add: is_tag_def get_text_strip_def all_strings_def interesting_string_types_def
        string_containers_def strip_def lstrip_def rstrip_def is_space_def NL_def)
qed

section \<open>Properties of the corpus store\<close>

lemma fold_max_ge: "(s::int) \<le> fold max xs s \<and> (\<forall>x\<in>set xs. x \<le> fold max xs s)"
proof (induction xs arbitrary: s)
  case Nil
  then show ?case by simp
next
  case (Cons a xs)
  have "max a s \<le> fold max xs (max a s)" "\<forall>x\<in>set xs. x \<le> fold max xs (max a s)"
    using Cons [of "max a s"] by simp_all
  then show ?case by auto
qed

lemma next_rowid_fresh: "next_rowid s ids \<notin> set ids"
  using fold_max_ge [of s ids] by (auto simp: next_rowid_def)

lemma replace_pages:
  "insert_or_replace_page d u src ttl cont ch crumbs lm = (d1, pid) \<Longrightarrow>
   pid = next_rowid (seq_pages d) (map p_id (db_pages d)) \<and>
   db_pages d1 =
     filter (\<lambda>p. p_id p \<notin> set (map p_id (filter (\<lambda>p. p_url p = u) (db_pages d)))) (db_pages d) @
     [\<lparr>p_id = pid, p_url = u, p_source = src, p_title = ttl, p_content = cont,
       p_content_html = ch, p_breadcrumbs = crumbs, p_last_modified = lm\<rparr>] \<and>
   (\<forall>s\<in>set (db_sections d1). s \<in> set (db_sections d) \<and>
      sec_page_id s \<notin> set (map p_id (filter (\<lambda>p. p_url p = u) (db_pages d)))) \<and>
   (\<forall>e\<in>set (db_code_examples d1).
      ce_page_id e \<notin> set (map p_id (filter (\<lambda>p. p_url p = u) (db_pages d))))"
  by (auto simp: insert_or_replace_page_def replace_delete_pages_def Let_def
      split: option.splits if_splits)

lemma insert_sections_effect:
  "insert_sections pid secs (d, st) = ((d', st'), ok) \<Longrightarrow>
   db_pages d' = db_pages d \<and> db_code_examples d' = db_code_examples d \<and>
   pages_fts d' = pages_fts d \<and> errors_n st' = errors_n st \<and> pages_n st' = pages_n st \<and>
   (\<forall>s\<in>set (db_sections d'). s \<in> set (db_sections d) \<or> sec_page_id s = pid)"
proof (induction secs arbitrary: d st)
  case Nil
  then show ?case by simp
next
  case (Cons s secs)
  show ?case
  proof (cases "insert_section d pid s")
    case None
    then show ?thesis using Cons.prems by simp
  next
    case (Some d2)
    then have d2: "db_pages d2 = db_pages d" "db_code_examples d2 = db_code_examples d"
      "pages_fts d2 = pages_fts d"
      "\<forall>x\<in>set (db_sections d2). x \<in> set (db_sections d) \<or> sec_page_id x = pid"
      by (auto simp: insert_section_def Let_def split: if_splits)
    from Some Cons.prems have
      "insert_sections pid secs (d2, st\<lparr>sections_n := sections_n st + 1\<rparr>) = ((d', st'), ok)"
      by simp
    from Cons.IH [OF this] show ?thesis using d2 by auto
  qed
qed

lemma insert_examples_effect:
  "insert_examples pid exs (d, st) = ((d', st'), ok) \<Longrightarrow>
   db_pages d' = db_pages d \<and> db_sections d' = db_sections d \<and>
   pages_fts d' = pages_fts d \<and> errors_n st' = errors_n st \<and> pages_n st' = pages_n st \<and>
   (\<forall>e\<in>set (db_code_examples d'). e \<in> set (db_code_examples d) \<or> ce_page_id e = pid)"
proof (induction exs arbitrary: d st)
  case Nil
  then show ?case by simp
next
  case (Cons ex exs)
  let ?sid = "if ce_context ex \<noteq> [] then select_section_id d pid (ce_context ex) else None"
  show ?case
  proof (cases "insert_code_example d pid ?sid ex")
    case None
    then show ?thesis using Cons.prems by (simp add: Let_def)
  next
    case (Some d2)
    then have d2: "db_pages d2 = db_pages d" "db_sections d2 = db_sections d"
      "pages_fts d2 = pages_fts d"
      "\<forall>x\<in>set (db_code_examples d2). x \<in> set (db_code_examples d) \<or> ce_page_id x = pid"
      by (auto simp: insert_code_example_def Let_def split: if_splits)
    from Some Cons.prems have
      "insert_examples pid exs (d2, st\<lparr>code_examples_n := code_examples_n st + 1\<rparr>)
         = ((d', st'), ok)"
      by (simp add: Let_def)
    from Cons.IH [OF this] show ?thesis using d2 by auto
  qed
qed

lemma insert_node_effect:
  "insert_node d nm disp cat descr pid = Some d' \<Longrightarrow>
   db_pages d' = db_pages d \<and> db_sections d' = db_sections d \<and>
   db_code_examples d' = db_code_examples d \<and> pages_fts d' = pages_fts d"
  by (auto simp: insert_node_def Let_def split: if_splits)

lemma write_page_effect:
  assumes r: "insert_or_replace_page d u src ttl cont ch crumbs lm = (d1, pid)"
    and w: "write_page u src ttl cont ch crumbs lm secs exs node (d, st) = (d', st')"
  shows "db_pages d' = db_pages d1 \<and> pages_fts d' = pages_fts d1 \<and>
     errors_n st' = errors_n st \<and> pages_n st' = pages_n st + 1 \<and>
     (\<forall>s\<in>set (db_sections d'). s \<in> set (db_sections d1) \<or> sec_page_id s = pid) \<and>
     (\<forall>e\<in>set (db_code_examples d'). e \<in> set (db_code_examples d1) \<or> ce_page_id e = pid)"
proof -
  obtain d2 st2 ok2 where s2:
    "insert_sections pid secs (d1, st\<lparr>pages_n := pages_n st + 1\<rparr>) = ((d2, st2), ok2)"
    by (metis prod.exhaust)
  note e2 = insert_sections_effect [OF s2]
  obtain d3 st3 ok3 where s3: "insert_examples pid exs (d2, st2) = ((d3, st3), ok3)"
    by (metis prod.exhaust)
  note e3 = insert_examples_effect [OF s3]
  show ?thesis
  proof (cases ok2)
    case False
    then have "(d', st') = (d2, st2)" using w r s2 by (simp add: write_page_def)
    then show ?thesis using e2 by auto
  next
    case True
    note ok2 = this
    show ?thesis
    proof (cases ok3)
      case False
      then have "(d', st') = (d3, st3)" using w r s2 s3 ok2 by (simp add: write_page_def)
      then show ?thesis using e2 e3 by auto
    next
      case True
      show ?thesis
      proof (cases node)
        case None
        then have "(d', st') = (d3, st3)" using w r s2 s3 ok2 True by (simp add: write_page_def)
        then show ?thesis using e2 e3 by auto
      next
        case (Some ni)
        let ?ins = "insert_node d3 (ni_name ni) (ni_display_name ni) (ni_category ni)
                      (if cont \<noteq> [] then Some (take 500 cont) else None) pid"
        show ?thesis
        proof (cases ?ins)
          case None
          then have "(d', st') = (d3, st3)"
            using w r s2 s3 ok2 True Some by (simp add: write_page_def)
          then show ?thesis using e2 e3 by auto
        next
          case (Some d4)
          note e4 = insert_node_effect [OF Some]
          have "(d', st') = (d4, st3\<lparr>nodes_n := nodes_n st3 + 1\<rparr>)"
            using w r s2 s3 ok2 True \<open>node = Some ni\<close> Some by (simp add: write_page_def)
          then show ?thesis using e2 e3 e4 by auto
        qed
      qed
    qed
  qed
qed

lemma write_page_one_row:
  "map (\<lambda>p. (p_title p, p_content p))
     (filter (\<lambda>p. p_url p = u)
        (db_pages (fst (write_page u src ttl cont ch crumbs lm secs exs node (d, st)))))
     = [(ttl, cont)]"
proof -
  obtain d1 pid where r: "insert_or_replace_page d u src ttl cont ch crumbs lm = (d1, pid)"
    by (metis prod.exhaust)
  obtain d' st' where w:
    "write_page u src ttl cont ch crumbs lm secs exs node (d, st) = (d', st')"
    by (metis prod.exhaust)
  note rp = replace_pages [OF r]
  note we = write_page_effect [OF r w]
  let ?olds = "set (map p_id (filter (\<lambda>p. p_url p = u) (db_pages d)))"
  have "filter (\<lambda>p. p_url p = u) (filter (\<lambda>p. p_id p \<notin> ?olds) (db_pages d)) = []"
    by (auto simp: filter_empty_conv)
  then show ?thesis using we rp w by simp
qed

text \<open>
  Claim C1. Writing a page whose URL the store may already hold. After the write (the
  upsert and the inserts of the page's sections, code examples and node) exactly one row
  of \<open>pages\<close> has that URL, and it carries the title and the body just written, whatever
  the store held before: so writing the same title and body again leaves the same page
  content. The new row's id differs from the id of every row there was. Of a row that
  held the URL before, no section and no code example remains: none after the upsert
  itself (they are deleted before the replacement's children are written), and none
  after the children are written.
\<close>

theorem upsert_supersedes:
  "map (\<lambda>p. (p_title p, p_content p))
     (filter (\<lambda>p. p_url p = u)
        (db_pages (fst (write_page u src ttl cont ch crumbs lm secs exs node (d, st)))))
     = [(ttl, cont)]
   \<and> (\<forall>old\<in>set (db_pages d). snd (insert_or_replace_page d u src ttl cont ch crumbs lm) \<noteq> p_id old)
   \<and> (\<forall>old\<in>set (db_pages d). p_url old = u \<longrightarrow>
        (\<forall>s\<in>set (db_sections (fst (insert_or_replace_page d u src ttl cont ch crumbs lm))).
            sec_page_id s \<noteq> p_id old) \<and>
        (\<forall>e\<in>set (db_code_examples (fst (insert_or_replace_page d u src ttl cont ch crumbs lm))).
            ce_page_id e \<noteq> p_id old) \<and>
        (\<forall>s\<in>set (db_sections
                   (fst (write_page u src ttl cont ch crumbs lm secs exs node (d, st)))).
            sec_page_id s \<noteq> p_id old) \<and>
        (\<forall>e\<in>set (db_code_examples
                   (fst (write_page u src ttl cont ch crumbs lm secs exs node (d, st)))).
            ce_page_id e \<noteq> p_id old))"
proof -
  obtain d1 pid where r: "insert_or_replace_page d u src ttl cont ch crumbs lm = (d1, pid)"
    by (metis prod.exhaust)
  obtain d' st' where w:
    "write_page u src ttl cont ch crumbs lm secs exs node (d, st) = (d', st')"
    by (metis prod.exhaust)
  note rp = replace_pages [OF r]
  note we = write_page_effect [OF r w]
  let ?olds = "set (map p_id (filter (\<lambda>p. p_url p = u) (db_pages d)))"
  have fresh: "\<forall>old\<in>set (db_pages d). pid \<noteq> p_id old"
    using rp next_rowid_fresh [of "seq_pages d" "map p_id (db_pages d)"] by auto
  have gone: "filter (\<lambda>p. p_url p = u) (filter (\<lambda>p. p_id p \<notin> ?olds) (db_pages d)) = []"
    by (auto simp: filter_empty_conv)
  have one: "map (\<lambda>p. (p_title p, p_content p)) (filter (\<lambda>p. p_url p = u) (db_pages d')) =
      [(ttl, cont)]"
    using we rp gone by simp
  have olds: "\<And>old. old \<in> set (db_pages d) \<Longrightarrow> p_url old = u \<Longrightarrow> p_id old \<in> ?olds"
    by auto
  have s1: "\<And>old s. old \<in> set (db_pages d) \<Longrightarrow> p_url old = u \<Longrightarrow> s \<in> set (db_sections d1)
      \<Longrightarrow> sec_page_id s \<noteq> p_id old"
    using rp olds by metis
  have e1: "\<And>old e. old \<in> set (db_pages d) \<Longrightarrow> p_url old = u \<Longrightarrow>
      e \<in> set (db_code_examples d1) \<Longrightarrow> ce_page_id e \<noteq> p_id old"
    using rp olds by metis
  have s2: "\<And>old s. old \<in> set (db_pages d) \<Longrightarrow> p_url old = u \<Longrightarrow> s \<in> set (db_sections d')
      \<Longrightarrow> sec_page_id s \<noteq> p_id old"
    using we s1 fresh by metis
  have e2: "\<And>old e. old \<in> set (db_pages d) \<Longrightarrow> p_url old = u \<Longrightarrow>
      e \<in> set (db_code_examples d') \<Longrightarrow> ce_page_id e \<noteq> p_id old"
    using we e1 fresh by metis
  show ?thesis
    unfolding r w fst_conv snd_conv using one fresh s1 e1 s2 e2 by blast
qed

text \<open>
  A page written twice under one URL, with a section and a code example: the second
  write leaves one page row, with the new id 2 and the new body, and the old section is
  gone (the one section left belongs to page 2).
\<close>

theorem upsert_supersedes_witness:
  "map (\<lambda>p. (p_id p, p_title p, p_content p))
     (db_pages (fst (write_page ''https://docs.griptape.ai/stable/agents/'' ''framework''
        ''Agents'' ''new body'' None [] None
        [\<lparr>heading = ''Setup'', level = 2, s_content = ''text'', anchor = ''setup''\<rparr>]
        [\<lparr>language = ''python'', code = ''print(1)'', ce_context = ''Setup''\<rparr>] None
        (fst (write_page ''https://docs.griptape.ai/stable/agents/'' ''framework''
           ''Agents'' ''old body'' None [] None
           [\<lparr>heading = ''Setup'', level = 2, s_content = ''text'', anchor = ''setup''\<rparr>]
           [\<lparr>language = ''python'', code = ''print(1)'', ce_context = ''Setup''\<rparr>] None
           (init_db, no_stats)), no_stats))))
   = [(2, ''Agents'', ''new body'')]
   \<and> map (\<lambda>s. (sec_id s, sec_page_id s))
     (db_sections (fst (write_page ''https://docs.griptape.ai/stable/agents/'' ''framework''
        ''Agents'' ''new body'' None [] None
        [\<lparr>heading = ''Setup'', level = 2, s_content = ''text'', anchor = ''setup''\<rparr>]
        [\<lparr>language = ''python'', code = ''print(1)'', ce_context = ''Setup''\<rparr>] None
        (fst (write_page ''https://docs.griptape.ai/stable/agents/'' ''framework''
           ''Agents'' ''old body'' None [] None
           [\<lparr>heading = ''Setup'', level = 2, s_content = ''text'', anchor = ''setup''\<rparr>]
           [\<lparr>language = ''python'', code = ''print(1)'', ce_context = ''Setup''\<rparr>] None
           (init_db, no_stats)), no_stats))))
   = [(2, 2)]"
proof -
  let ?u = "''https://docs.griptape.ai/stable/agents/''"
  let ?secs = "[\<lparr>heading = ''Setup'', level = 2, s_content = ''text'', anchor = ''setup''\<rparr>]"
  let ?exs = "[\<lparr>language = ''python'', code = ''print(1)'', ce_context = ''Setup''\<rparr>]"
  let ?d1 = "fst (write_page ?u ''framework'' ''Agents'' ''old body'' None [] None ?secs ?exs None
                (init_db, no_stats))"
  have d1: "?d1 =
      \<lparr>db_pages = [\<lparr>p_id = 1, p_url = ?u, p_source = ''framework'', p_title = ''Agents'',
                    p_content = ''old body'', p_content_html = None, p_breadcrumbs = [],
                    p_last_modified = None\<rparr>],
       db_sections = [\<lparr>heading = ''Setup'', level = 2, s_content = ''text'', anchor = ''setup'',
                       sec_id = 1, sec_page_id = 1\<rparr>],
       db_code_examples = [\<lparr>language = ''python'', code = ''print(1)'', ce_context = ''Setup'',
                            ce_id = 1, ce_page_id = 1, ce_section_id = Some 1\<rparr>],
       db_nodes = [], pages_fts = [(1, ''Agents'', ''old body'')],
       sections_fts = [(1, ''Setup'', ''text'')], seq_pages = 1, seq_sections = 1,
       seq_code_examples = 1, seq_nodes = 0\<rparr>"
    by (simp add: write_page_def insert_or_replace_page_def replace_delete_pages_def
        init_db_def no_stats_def next_rowid_def insert_section_def insert_code_example_def
        select_section_id_def fts_insert_def fts_delete_def page_entry_def section_entry_def
        Let_def)
  let ?d2 = "fst (write_page ?u ''framework'' ''Agents'' ''new body'' None [] None ?secs ?exs None
                (?d1, no_stats))"
  have d2: "map (\<lambda>p. p_id p) (db_pages ?d2) = [2] \<and>
      map (\<lambda>s. (sec_id s, sec_page_id s)) (db_sections ?d2) = [(2, 2)]"
    unfolding d1
    by (simp add: write_page_def insert_or_replace_page_def replace_delete_pages_def
        no_stats_def next_rowid_def insert_section_def insert_code_example_def
        select_section_id_def fts_insert_def fts_delete_def page_entry_def section_entry_def
        Let_def)
  have "map (\<lambda>p. (p_title p, p_content p)) (filter (\<lambda>p. p_url p = ?u) (db_pages ?d2)) =
      [(''Agents'', ''new body'')]"
    using upsert_supersedes [of ?u "''framework''" "''Agents''" "''new body''" None "[]" None
        ?secs ?exs None ?d1 no_stats]
    by blast
  then show ?thesis using d2
    by (cases "db_pages ?d2") (auto split: if_splits)
qed

lemma fresh_upsert_keeps_index:
  assumes "pages_fts d = map page_entry (db_pages d)" and "u \<notin> p_url ` set (db_pages d)"
  shows "pages_fts (fst (insert_or_replace_page d u src ttl cont ch crumbs lm)) =
     map page_entry (db_pages (fst (insert_or_replace_page d u src ttl cont ch crumbs lm)))"
proof -
  from assms(2) have "filter (\<lambda>p. p_url p = u) (db_pages d) = []"
    by (auto simp: filter_empty_conv)
  then show ?thesis using assms(1)
    by (simp add: insert_or_replace_page_def replace_delete_pages_def Let_def fts_insert_def)
qed

lemma insert_section_keeps_index:
  "sections_fts d = map section_entry (db_sections d) \<Longrightarrow> insert_section d pid s = Some d' \<Longrightarrow>
   sections_fts d' = map section_entry (db_sections d')"
  by (auto simp: insert_section_def Let_def fts_insert_def split: if_splits)

text \<open>
  Claim C2 does not hold of the code. The triggers mirror an insert into \<open>pages\<close> that
  meets no stored URL, and every insert into \<open>sections\<close> (the two lemmas above). But the
  scrapers write pages with \<open>INSERT OR REPLACE\<close>, and the row that REPLACE removes fires no
  delete trigger: after a page is written a second time under its URL, \<open>pages_fts\<close> still
  holds the entry of row 1 with the old title and content, while \<open>pages\<close> holds row 2 only.
\<close>

theorem replace_leaves_stale_index_entry:
  "pages_fts
     (fst (insert_or_replace_page
        (fst (insert_or_replace_page init_db ''https://docs.griptapenodes.com/en/stable/faq/''
                ''nodes'' ''Alpha'' ''oldword'' None [] None))
        ''https://docs.griptapenodes.com/en/stable/faq/'' ''nodes'' ''Beta'' ''newword''
        None [] None))
     = [(1, ''Alpha'', ''oldword''), (2, ''Beta'', ''newword'')]
   \<and> map page_entry
     (db_pages
       (fst (insert_or_replace_page
          (fst (insert_or_replace_page init_db ''https://docs.griptapenodes.com/en/stable/faq/''
                  ''nodes'' ''Alpha'' ''oldword'' None [] None))
          ''https://docs.griptapenodes.com/en/stable/faq/'' ''nodes'' ''Beta'' ''newword''
          None [] None)))
     = [(2, ''Beta'', ''newword'')]"
  by (simp add: insert_or_replace_page_def replace_delete_pages_def init_db_def next_rowid_def
      fts_insert_def page_entry_def Let_def)

section \<open>Properties of the site scrapers\<close>

lemma too_large_msg_nonempty: "too_large_msg n \<noteq> []"
  by (simp add: too_large_msg_def)

lemma value_error_msg_nonempty: "value_error_msg r \<noteq> []"
  by (simp add: value_error_msg_def)

lemma fetch_loop_oversized:
  assumes "net a = Replied resp" "is_success (status_code resp)" "oversized resp"
  shows "html (fst (fetch_loop net u (a # rest))) = None \<and>
     truthy (error (fst (fetch_loop net u (a # rest))))"
proof -
  from assms(2) have s: "status_code resp \<noteq> 429" by (auto simp: is_success_def)
  show ?thesis
  proof (cases "declared_length resp")
    case Absent
    with assms s show ?thesis
      by (auto simp: oversized_def Let_def MAX_RESPONSE_SIZE_def too_large_msg_nonempty
          failed_def truthy_def)
  next
    case (Declared n)
    with assms s show ?thesis
      by (auto simp: oversized_def Let_def too_large_msg_nonempty failed_def truthy_def)
  next
    case (Malformed r)
    with assms s show ?thesis
      by (auto simp: oversized_def Let_def value_error_msg_nonempty failed_def truthy_def)
  qed
qed

lemma fetch_one_oversized:
  assumes "k < MAX_RETRIES" "\<forall>i<k. rate_limited (net i)" "net k = Replied resp"
    "is_success (status_code resp)" "oversized resp"
  shows "html (fst (fetch_one net u)) = None \<and> truthy (error (fst (fetch_one net u)))"
proof -
  have "[0..<k + (MAX_RETRIES - k)] = [0..<k] @ [k..<k + (MAX_RETRIES - k)]"
    by (rule upt_add_eq_append) simp
  with assms(1) have split: "[0..<MAX_RETRIES] = [0..<k] @ k # [Suc k..<MAX_RETRIES]"
    by (simp add: upt_conv_Cons)
  from assms(2) have "\<forall>a\<in>set [0..<k]. rate_limited (net a)" by simp
  then have "fetch_loop net u ([0..<k] @ k # [Suc k..<MAX_RETRIES]) =
      (fst (fetch_loop net u (k # [Suc k..<MAX_RETRIES])),
       backoff [0..<k] @ snd (fetch_loop net u (k # [Suc k..<MAX_RETRIES])))"
    by (rule fetch_loop_backoff)
  then have "fst (fetch_one net u) = fst (fetch_loop net u (k # [Suc k..<MAX_RETRIES]))"
    by (simp add: fetch_one_def split)
  then show ?thesis
    using fetch_loop_oversized [of net k resp u "[Suc k..<MAX_RETRIES]"] assms(3,4,5) by simp
qed

lemma write_page_titles:
  assumes "p \<in> set (db_pages (fst (write_page u src ttl cont ch crumbs lm secs exs node ds)))"
  shows "p \<in> set (db_pages (fst ds)) \<or> p_title p = ttl"
proof -
  obtain d st where ds: "ds = (d, st)" by (cases ds)
  obtain d1 pid where r: "insert_or_replace_page d u src ttl cont ch crumbs lm = (d1, pid)"
    by (metis prod.exhaust)
  obtain d' st' where w:
    "write_page u src ttl cont ch crumbs lm secs exs node (d, st) = (d', st')"
    by (metis prod.exhaust)
  from write_page_effect [OF r w] replace_pages [OF r] assms ds w show ?thesis by auto
qed

lemma write_page_counts:
  "errors_n (snd (write_page u src ttl cont ch crumbs lm secs exs node ds)) = errors_n (snd ds)
   \<and> pages_n (snd (write_page u src ttl cont ch crumbs lm secs exs node ds)) = pages_n (snd ds) + 1"
proof -
  obtain d st where ds: "ds = (d, st)" by (cases ds)
  obtain d1 pid where r: "insert_or_replace_page d u src ttl cont ch crumbs lm = (d1, pid)"
    by (metis prod.exhaust)
  obtain d' st' where w:
    "write_page u src ttl cont ch crumbs lm secs exs node (d, st) = (d', st')"
    by (metis prod.exhaust)
  from write_page_effect [OF r w] ds w show ?thesis by auto
qed

lemma framework_step_titles:
  "framework_step parse lm ds page = Inr ds' \<Longrightarrow> p \<in> set (db_pages (fst ds')) \<Longrightarrow>
   p_title p = [] \<Longrightarrow> p \<in> set (db_pages (fst ds))"
  by (auto simp: framework_step_def Let_def split: if_splits option.splits
      dest!: write_page_titles)

lemma nodes_step_titles:
  "nodes_step parse lm ds page = Inr ds' \<Longrightarrow> p \<in> set (db_pages (fst ds')) \<Longrightarrow>
   p_title p = [] \<Longrightarrow> p \<in> set (db_pages (fst ds))"
  by (auto simp: nodes_step_def Let_def split: if_splits option.splits
      dest!: write_page_titles)

lemma run_loop_invariant:
  assumes "\<And>s x s'. step s x = Inr s' \<Longrightarrow> P s \<Longrightarrow> P s'"
  shows "run_loop step xs s = Inr s' \<Longrightarrow> P s \<Longrightarrow> P s'"
proof (induction xs arbitrary: s)
  case Nil
  then show ?case by simp
next
  case (Cons x xs)
  then show ?case using assms by (auto split: sum.splits)
qed

text \<open>
  Claim C7. A reply with a success status whose declared content length, or whose text,
  exceeds \<open>MAX_RESPONSE_SIZE\<close> (reached after fewer than five replies of 429) gives an
  outcome without content and with an error message that is not empty; the loop body of
  the framework scraper and of the node scraper counts it as an error and leaves the
  database as it is, so no page is stored for it.
\<close>

theorem oversized_response_is_error:
  "k < MAX_RETRIES \<and> (\<forall>i<k. rate_limited (net i)) \<and> net k = Replied resp \<and>
   is_success (status_code resp) \<and> oversized resp \<longrightarrow>
     html (fst (fetch_one net u)) = None \<and> truthy (error (fst (fetch_one net u))) \<and>
     framework_step parse lm ds (fst (fetch_one net u)) =
       Inr (fst ds, (snd ds)\<lparr>errors_n := errors_n (snd ds) + 1\<rparr>) \<and>
     nodes_step parse lm ds (fst (fetch_one net u)) =
       Inr (fst ds, (snd ds)\<lparr>errors_n := errors_n (snd ds) + 1\<rparr>)"
proof
  assume h: "k < MAX_RETRIES \<and> (\<forall>i<k. rate_limited (net i)) \<and> net k = Replied resp \<and>
   is_success (status_code resp) \<and> oversized resp"
  then have e: "html (fst (fetch_one net u)) = None \<and> truthy (error (fst (fetch_one net u)))"
    using fetch_one_oversized [of k net resp u] by blast
  then show "html (fst (fetch_one net u)) = None \<and> truthy (error (fst (fetch_one net u))) \<and>
     framework_step parse lm ds (fst (fetch_one net u)) =
       Inr (fst ds, (snd ds)\<lparr>errors_n := errors_n (snd ds) + 1\<rparr>) \<and>
     nodes_step parse lm ds (fst (fetch_one net u)) =
       Inr (fst ds, (snd ds)\<lparr>errors_n := errors_n (snd ds) + 1\<rparr>)"
    by (simp add: framework_step_def nodes_step_def)
qed

text \<open>A page that declares 10000001 bytes: one error, and an untouched database.\<close>

theorem oversized_response_is_error_witness:
  "framework_step (\<lambda>s. Tag ''[document]'' [] [] []) (\<lambda>u. None) (init_db, no_stats)
     (fst (fetch_one
        (\<lambda>i. Replied \<lparr>status_code = 200, declared_length = Declared 10000001,
                       body_text = ''<h1>Huge</h1>'', status_error = []\<rparr>)
        ''https://docs.griptape.ai/stable/huge/''))
   = Inr (init_db, no_stats\<lparr>errors_n := 1\<rparr>)"
  using oversized_response_is_error
    [where k = 0 and u = "''https://docs.griptape.ai/stable/huge/''"
       and ds = "(init_db, no_stats)" and parse = "\<lambda>s. Tag ''[document]'' [] [] []"
       and lm = "\<lambda>u. None"
       and resp = "\<lparr>status_code = 200, declared_length = Declared 10000001,
                      body_text = ''<h1>Huge</h1>'', status_error = []\<rparr>"
       and net = "\<lambda>i. Replied \<lparr>status_code = 200, declared_length = Declared 10000001,
                       body_text = ''<h1>Huge</h1>'', status_error = []\<rparr>"]
  by (simp add: MAX_RETRIES_def is_success_def oversized_def MAX_RESPONSE_SIZE_def no_stats_def)

lemma fence_eq: "fence = [CHR 0x60, CHR 0x60, CHR 0x60]"
  by (simp add: fence_def eval_nat_numeral)

text \<open>
  Claim C5, as stated, fails for the GitHub scraper: a fetched file \<open>intro.md\<close> whose text
  has no level-1 heading (the extraction yields no title) is not skipped. The page is
  written, under the title \<open>Intro\<close> made from the file name.
\<close>

theorem github_titleless_page_is_written:
  "title (parse_markdown ''hello'') = []
   \<and> map_sum id
     (\<lambda>ds. (map (\<lambda>p. (p_url p, p_title p)) (db_pages (fst ds)), pages_n (snd ds),
            errors_n (snd ds)))
     (github_step (init_db, no_stats)
        \<lparr>gh_path = ''docs/intro.md'', gh_name = ''intro.md'', gh_content = Some ''hello'',
         gh_error = None\<rparr>)
   = Inr ([(''https://docs.griptapenodes.com/en/stable/intro/'', ''Intro'')], 1, 0)"
proof -
  have md: "parse_markdown ''hello'' =
      \<lparr>title = [], content_text = ''hello'', sections = [], code_examples = []\<rparr>"
    by (simp add: parse_markdown_def md_step_def md_init_def heading_match_def fence_eq
        save_section_def Let_def)
  have ttl: "humanize ''intro'' = ''Intro''"
    by code_simp
  have url: "path_to_docs_url ''docs/intro.md'' =
      ''https://docs.griptapenodes.com/en/stable/intro/''"
    by (simp add: path_to_docs_url_def BASE_DOCS_URL_def)
  have node: "extract_node_info_github ''docs/intro.md'' ''Intro'' = None"
    by (simp add: extract_node_info_github_def node_path_match_def drop_suffix_def NL_def
        suffix_to_prefix)
  show ?thesis
    by (simp add: github_step_def truthy_def md ttl url node write_page_def
        insert_or_replace_page_def replace_delete_pages_def init_db_def no_stats_def
        next_rowid_def fts_insert_def page_entry_def Let_def)
qed

text \<open>
  Claim C5, amended. In the framework scraper and the node scraper, every page row that
  a loop step adds has a non-empty title, so a run on a store whose titles are non-empty
  (a new database, for one) ends with non-empty titles only; and a fetched page whose
  extraction yields no title is skipped: the step changes neither the database nor the
  counters, the error counter included. The GitHub scraper does not skip such a file: it
  writes the page under the title made from the file name (\<open>.md\<close> removed, underscores
  turned into spaces, title-cased), counts a page and counts no error.
\<close>

theorem titleless_pages:
  "(framework_step parse lm ds page = Inr ds' \<longrightarrow>
      (\<forall>p\<in>set (db_pages (fst ds')). p_title p = [] \<longrightarrow> p \<in> set (db_pages (fst ds))))
   \<and> (nodes_step parse lm ds page = Inr ds' \<longrightarrow>
      (\<forall>p\<in>set (db_pages (fst ds')). p_title p = [] \<longrightarrow> p \<in> set (db_pages (fst ds))))
   \<and> ((\<forall>p\<in>set (db_pages d). p_title p \<noteq> []) \<and> scrape_framework parse lm pages d = Inr ds'
        \<longrightarrow> (\<forall>p\<in>set (db_pages (fst ds')). p_title p \<noteq> []))
   \<and> ((\<forall>p\<in>set (db_pages d). p_title p \<noteq> []) \<and> scrape_nodes parse lm pages d = Inr ds'
        \<longrightarrow> (\<forall>p\<in>set (db_pages (fst ds')). p_title p \<noteq> []))
   \<and> (\<not> truthy (error page) \<and> html page = Some h \<and>
       title (extract_mkdocs_content (parse h)) = [] \<longrightarrow>
        framework_step parse lm ds page = Inr ds \<and> nodes_step parse lm ds page = Inr ds)
   \<and> (\<not> truthy (gh_error r) \<and> gh_content r = Some c \<and> title (parse_markdown c) = [] \<longrightarrow>
        (\<exists>ds''. github_step ds r = Inr ds'' \<and> errors_n (snd ds'') = errors_n (snd ds) \<and>
           pages_n (snd ds'') = pages_n (snd ds) + 1 \<and>
           map p_title (filter (\<lambda>p. p_url p = path_to_docs_url (gh_path r)) (db_pages (fst ds'')))
             = [humanize (replace ''.md'' [] (gh_name r))]))"
proof (intro conjI impI)
  assume "framework_step parse lm ds page = Inr ds'"
  then show "\<forall>p\<in>set (db_pages (fst ds')). p_title p = [] \<longrightarrow> p \<in> set (db_pages (fst ds))"
    using framework_step_titles by blast
next
  assume "nodes_step parse lm ds page = Inr ds'"
  then show "\<forall>p\<in>set (db_pages (fst ds')). p_title p = [] \<longrightarrow> p \<in> set (db_pages (fst ds))"
    using nodes_step_titles by blast
next
  assume h: "(\<forall>p\<in>set (db_pages d). p_title p \<noteq> []) \<and> scrape_framework parse lm pages d = Inr ds'"
  have inv: "\<And>s x s'. framework_step parse lm s x = Inr s' \<Longrightarrow>
      (\<forall>p\<in>set (db_pages (fst s)). p_title p \<noteq> []) \<Longrightarrow>
      (\<forall>p\<in>set (db_pages (fst s')). p_title p \<noteq> [])"
    using framework_step_titles by blast
  from h have run: "run_loop (framework_step parse lm) pages (d, no_stats) = Inr ds'"
    by (simp add: scrape_framework_def)
  from h have start: "\<forall>p\<in>set (db_pages (fst (d, no_stats))). p_title p \<noteq> []"
    by simp
  show "\<forall>p\<in>set (db_pages (fst ds')). p_title p \<noteq> []"
    by (rule run_loop_invariant
          [where P = "\<lambda>s. \<forall>p\<in>set (db_pages (fst s)). p_title p \<noteq> []", OF inv run start])
next
  assume h: "(\<forall>p\<in>set (db_pages d). p_title p \<noteq> []) \<and> scrape_nodes parse lm pages d = Inr ds'"
  have inv: "\<And>s x s'. nodes_step parse lm s x = Inr s' \<Longrightarrow>
      (\<forall>p\<in>set (db_pages (fst s)). p_title p \<noteq> []) \<Longrightarrow>
      (\<forall>p\<in>set (db_pages (fst s')). p_title p \<noteq> [])"
    using nodes_step_titles by blast
  from h have run: "run_loop (nodes_step parse lm) pages (d, no_stats) = Inr ds'"
    by (simp add: scrape_nodes_def)
  from h have start: "\<forall>p\<in>set (db_pages (fst (d, no_stats))). p_title p \<noteq> []"
    by simp
  show "\<forall>p\<in>set (db_pages (fst ds')). p_title p \<noteq> []"
    by (rule run_loop_invariant
          [where P = "\<lambda>s. \<forall>p\<in>set (db_pages (fst s)). p_title p \<noteq> []", OF inv run start])
next
  assume "\<not> truthy (error page) \<and> html page = Some h \<and>
       title (extract_mkdocs_content (parse h)) = []"
  then show "framework_step parse lm ds page = Inr ds" "nodes_step parse lm ds page = Inr ds"
    by (simp_all add: framework_step_def nodes_step_def Let_def)
next
  assume h: "\<not> truthy (gh_error r) \<and> gh_content r = Some c \<and> title (parse_markdown c) = []"
  let ?ttl = "humanize (replace ''.md'' [] (gh_name r))"
  let ?w = "write_page (path_to_docs_url (gh_path r)) ''nodes'' ?ttl
              (content_text (parse_markdown c)) None [] None (sections (parse_markdown c))
              (code_examples (parse_markdown c))
              (extract_node_info_github (gh_path r) ?ttl) ds"
  have step: "github_step ds r = Inr ?w"
    using h by (simp add: github_step_def Let_def)
  have row: "map p_title (filter (\<lambda>p. p_url p = path_to_docs_url (gh_path r)) (db_pages (fst ?w)))
      = [?ttl]"
    using write_page_one_row [of "path_to_docs_url (gh_path r)" "''nodes''" ?ttl
        "content_text (parse_markdown c)" None "[]" None "sections (parse_markdown c)"
        "code_examples (parse_markdown c)" "extract_node_info_github (gh_path r) ?ttl"
        "fst ds" "snd ds"]
    by (auto simp: map_eq_Cons_conv)
  show "\<exists>ds''. github_step ds r = Inr ds'' \<and> errors_n (snd ds'') = errors_n (snd ds) \<and>
           pages_n (snd ds'') = pages_n (snd ds) + 1 \<and>
           map p_title (filter (\<lambda>p. p_url p = path_to_docs_url (gh_path r)) (db_pages (fst ds'')))
             = [?ttl]"
    by (rule exI [of _ ?w]) (simp add: step row write_page_counts)
qed

text \<open>A fetched page without an \<open>h1\<close> element: the framework scraper's step changes nothing.\<close>

theorem titleless_pages_witness:
  "framework_step
     (\<lambda>s. Tag ''[document]'' [] [] [Tag ''p'' [] [] [Text NavigableString ''no heading'']])
     (\<lambda>u. None) (init_db, no_stats)
     \<lparr>o_url = ''https://docs.griptape.ai/stable/x/'', html = Some ''<p>no heading</p>'',
      error = None\<rparr>
   = Inr (init_db, no_stats)"
proof -
  let ?parse = "\<lambda>s::string.
      Tag ''[document]'' [] [] [Tag ''p'' [] [] [Text NavigableString ''no heading'']]"
  let ?page = "\<lparr>o_url = ''https://docs.griptape.ai/stable/x/'',
                 html = Some ''<p>no heading</p>'', error = None\<rparr>"
  have "\<not> truthy (error ?page) \<and> html ?page = Some ''<p>no heading</p>'' \<and>
      title (extract_mkdocs_content (?parse ''<p>no heading</p>'')) = []"
    by (simp add: truthy_def extract_mkdocs_content_def named_def select_content_def
        first_index_def has_class_def Let_def strip_def lstrip_def rstrip_def
        rstrip_chars_def)
  then have "framework_step ?parse (\<lambda>u. None) (init_db, no_stats) ?page =
        Inr (init_db, no_stats) \<and>
      nodes_step ?parse (\<lambda>u. None) (init_db, no_stats) ?page = Inr (init_db, no_stats)"
    by (rule titleless_pages [THEN conjunct2, THEN conjunct2, THEN conjunct2, THEN conjunct2,
          THEN conjunct1, THEN mp])
  then show ?thesis by simp
qed

section \<open>Properties of the query layer\<close>

lemma collect_prefix: "prefix (snd s) (snd (collect s rows))"
proof (induction rows arbitrary: s)
  case Nil
  then show ?case by (cases s) simp
next
  case (Cons row rows)
  obtain seen res where s: "s = (seen, res)" by (cases s)
  show ?case
  proof (cases "fst row \<in> seen")
    case True
    then show ?thesis using Cons [of "(seen, res)"] s by simp
  next
    case False
    have "prefix res (res @ [row])" by simp
    also have "prefix (res @ [row]) (snd (collect (insert (fst row) seen, res @ [row]) rows))"
      using Cons [of "(insert (fst row) seen, res @ [row])"] by simp
    finally show ?thesis using False s by simp
  qed
qed

lemma collect_collected: "collected s \<Longrightarrow> collected (collect s rows)"
proof (induction rows arbitrary: s)
  case Nil
  then show ?case by (cases s) simp
next
  case (Cons row rows)
  obtain seen res where s: "s = (seen, res)" by (cases s)
  show ?case
  proof (cases "fst row \<in> seen")
    case True
    then show ?thesis using Cons s by simp
  next
    case False
    with Cons.prems s have "collected (insert (fst row) seen, res @ [row])"
      by (auto simp: collected_def)
    then show ?thesis using Cons.IH False s by simp
  qed
qed

lemma collect_ids:
  "collected s \<Longrightarrow> fst ` set (snd (collect s rows)) = fst ` set (snd s) \<union> fst ` set rows"
proof (induction rows arbitrary: s)
  case Nil
  then show ?case by (cases s) simp
next
  case (Cons row rows)
  obtain seen res where s: "s = (seen, res)" by (cases s)
  show ?case
  proof (cases "fst row \<in> seen")
    case True
    then show ?thesis using Cons s by (auto simp: collected_def)
  next
    case False
    with Cons.prems s have c: "collected (insert (fst row) seen, res @ [row])"
      by (auto simp: collected_def)
    show ?thesis using Cons.IH [OF c] False s by auto
  qed
qed

lemma collect_subseq: "subseq (drop (length (snd s)) (snd (collect s rows))) rows"
proof (induction rows arbitrary: s)
  case Nil
  then show ?case by (cases s) simp
next
  case (Cons row rows)
  obtain seen res where s: "s = (seen, res)" by (cases s)
  show ?case
  proof (cases "fst row \<in> seen")
    case True
    then show ?thesis using Cons [of "(seen, res)"] s by (auto intro: list_emb_Cons)
  next
    case False
    let ?t = "(insert (fst row) seen, res @ [row])"
    have p: "prefix (res @ [row]) (snd (collect ?t rows))"
      using collect_prefix [of ?t rows] by simp
    then obtain zs where zs: "snd (collect ?t rows) = (res @ [row]) @ zs"
      by (auto simp: prefix_def)
    have "subseq (drop (length (snd ?t)) (snd (collect ?t rows))) rows" by (rule Cons)
    then have "subseq zs rows" using zs by simp
    then show ?thesis using False s zs by simp
  qed
qed

lemma after_layer1_collect: "after_layer1 a limit = collect ({}, []) (layer1_rows a limit)"
  by (simp add: after_layer1_def layer1_rows_def split: option.splits)

lemma after_layer2_collect:
  "after_layer2 a limit = collect (after_layer1 a limit) (layer2_rows a limit)"
  by (cases "after_layer1 a limit")
     (simp add: after_layer2_def layer2_rows_def Let_def split: option.splits)

lemma after_layer3_collect:
  "after_layer3 a limit = collect (after_layer2 a limit) (layer3_rows a limit)"
  by (cases "after_layer2 a limit") (simp add: after_layer3_def layer3_rows_def Let_def)

lemma collected_layers:
  "collected (after_layer1 a limit)" "collected (after_layer2 a limit)"
  "collected (after_layer3 a limit)"
proof -
  have "collected ({}, [])" by (simp add: collected_def)
  then show 1: "collected (after_layer1 a limit)"
    unfolding after_layer1_collect by (rule collect_collected)
  then show 2: "collected (after_layer2 a limit)"
    unfolding after_layer2_collect by (rule collect_collected)
  then show "collected (after_layer3 a limit)"
    unfolding after_layer3_collect by (rule collect_collected)
qed

lemma layers_append:
  "snd (after_layer2 a limit) = layer1_part a limit @ layer2_part a limit"
  "snd (after_layer3 a limit) = layer1_part a limit @ layer2_part a limit @ layer3_part a limit"
proof -
  have "prefix (snd (after_layer1 a limit)) (snd (after_layer2 a limit))"
    unfolding after_layer2_collect by (rule collect_prefix)
  then show 2: "snd (after_layer2 a limit) = layer1_part a limit @ layer2_part a limit"
    by (auto simp: layer1_part_def layer2_part_def prefix_def)
  have "prefix (snd (after_layer2 a limit)) (snd (after_layer3 a limit))"
    unfolding after_layer3_collect by (rule collect_prefix)
  then have "snd (after_layer3 a limit) = snd (after_layer2 a limit) @ layer3_part a limit"
    by (auto simp: layer3_part_def prefix_def)
  then show "snd (after_layer3 a limit) =
      layer1_part a limit @ layer2_part a limit @ layer3_part a limit"
    using 2 by simp
qed

lemma py_prefix_take: "\<exists>n. py_prefix limit xs = take n xs"
  by (auto simp: py_prefix_def)

text \<open>
  Claim C8. Layer 2 is consulted only when layer 1 left fewer results than the limit, and
  layer 3 only when layers 1 and 2 together did: otherwise the result does not depend on
  what the later layers would answer. No code example occurs twice in the result. The
  result is a prefix of the rows added by layer 1, then those added by layer 2, then
  those added by layer 3; each layer adds, in the order in which its query returned
  them, exactly the examples that no earlier row had produced. So every example that the
  section layer returned stands before every example that only the substring layer
  returned.
\<close>

theorem search_code_examples_layers:
  "(limit \<le> int (length (layer1_part a limit)) \<longrightarrow>
      search_code_examples_rows (a\<lparr>page_fts := f2, code_like := f3\<rparr>) limit =
      search_code_examples_rows a limit)
   \<and> (limit \<le> int (length (layer1_part a limit @ layer2_part a limit)) \<longrightarrow>
      search_code_examples_rows (a\<lparr>code_like := f3\<rparr>) limit = search_code_examples_rows a limit)
   \<and> distinct (map fst (search_code_examples_rows a limit))
   \<and> prefix (search_code_examples_rows a limit)
        (layer1_part a limit @ layer2_part a limit @ layer3_part a limit)
   \<and> subseq (layer1_part a limit) (layer1_rows a limit)
   \<and> subseq (layer2_part a limit) (layer2_rows a limit)
   \<and> subseq (layer3_part a limit) (layer3_rows a limit)
   \<and> fst ` set (layer1_part a limit) = fst ` set (layer1_rows a limit)
   \<and> fst ` set (layer2_part a limit) =
       fst ` set (layer2_rows a limit) - fst ` set (layer1_part a limit)
   \<and> fst ` set (layer3_part a limit) =
       fst ` set (layer3_rows a limit) -
       (fst ` set (layer1_part a limit) \<union> fst ` set (layer2_part a limit))"
proof (intro conjI impI)
  assume "limit \<le> int (length (layer1_part a limit))"
  then have full: "\<not> int (length (snd (after_layer1 a limit))) < limit"
    by (simp add: layer1_part_def)
  have same: "after_layer1 (a\<lparr>page_fts := f2, code_like := f3\<rparr>) limit = after_layer1 a limit"
    by (simp add: after_layer1_def)
  show "search_code_examples_rows (a\<lparr>page_fts := f2, code_like := f3\<rparr>) limit =
      search_code_examples_rows a limit"
    using full
    by (simp add: search_code_examples_rows_def after_layer3_def after_layer2_def same Let_def)
next
  assume "limit \<le> int (length (layer1_part a limit @ layer2_part a limit))"
  then have full: "\<not> int (length (snd (after_layer2 a limit))) < limit"
    by (simp add: layers_append)
  have same: "after_layer2 (a\<lparr>code_like := f3\<rparr>) limit = after_layer2 a limit"
    by (simp add: after_layer2_def after_layer1_def Let_def)
  show "search_code_examples_rows (a\<lparr>code_like := f3\<rparr>) limit =
      search_code_examples_rows a limit"
    using full by (simp add: search_code_examples_rows_def after_layer3_def same Let_def)
next
  obtain n where n: "search_code_examples_rows a limit = take n (snd (after_layer3 a limit))"
    using py_prefix_take [of limit "snd (after_layer3 a limit)"]
    by (auto simp: search_code_examples_rows_def)
  have "distinct (map fst (snd (after_layer3 a limit)))"
    using collected_layers(3) [of a limit] by (simp add: collected_def)
  then show "distinct (map fst (search_code_examples_rows a limit))"
    unfolding n by (simp add: take_map [symmetric] distinct_take)
  show "prefix (search_code_examples_rows a limit)
        (layer1_part a limit @ layer2_part a limit @ layer3_part a limit)"
    unfolding n layers_append [symmetric] by (rule take_is_prefix)
next
  show "subseq (layer1_part a limit) (layer1_rows a limit)"
    using collect_subseq [of "({}, [])" "layer1_rows a limit"]
    by (simp add: layer1_part_def after_layer1_collect)
  show "subseq (layer2_part a limit) (layer2_rows a limit)"
    unfolding layer2_part_def after_layer2_collect by (rule collect_subseq)
  show "subseq (layer3_part a limit) (layer3_rows a limit)"
    unfolding layer3_part_def after_layer3_collect by (rule collect_subseq)
next
  have c0: "collected ({}, [])" by (simp add: collected_def)
  show i1: "fst ` set (layer1_part a limit) = fst ` set (layer1_rows a limit)"
    using collect_ids [OF c0, of "layer1_rows a limit"]
    by (simp add: layer1_part_def after_layer1_collect)
  have d2: "distinct (map fst (layer1_part a limit @ layer2_part a limit))"
    using collected_layers(2) [of a limit] by (simp add: collected_def layers_append)
  have "fst ` set (snd (after_layer2 a limit)) =
      fst ` set (snd (after_layer1 a limit)) \<union> fst ` set (layer2_rows a limit)"
    unfolding after_layer2_collect by (rule collect_ids) (rule collected_layers)
  then have u2: "fst ` set (layer1_part a limit) \<union> fst ` set (layer2_part a limit) =
      fst ` set (layer1_part a limit) \<union> fst ` set (layer2_rows a limit)"
    by (simp add: layers_append layer1_part_def image_Un)
  from d2 have "fst ` set (layer1_part a limit) \<inter> fst ` set (layer2_part a limit) = {}"
    by auto
  with u2 show "fst ` set (layer2_part a limit) =
       fst ` set (layer2_rows a limit) - fst ` set (layer1_part a limit)"
    by blast
  have d3: "distinct (map fst (layer1_part a limit @ layer2_part a limit @ layer3_part a limit))"
    using collected_layers(3) [of a limit] by (simp add: collected_def layers_append)
  have "fst ` set (snd (after_layer3 a limit)) =
      fst ` set (snd (after_layer2 a limit)) \<union> fst ` set (layer3_rows a limit)"
    unfolding after_layer3_collect by (rule collect_ids) (rule collected_layers)
  then have u3: "fst ` set (layer1_part a limit) \<union> fst ` set (layer2_part a limit) \<union>
      fst ` set (layer3_part a limit) =
      fst ` set (layer1_part a limit) \<union> fst ` set (layer2_part a limit) \<union>
      fst ` set (layer3_rows a limit)"
    by (simp add: layers_append image_Un Un_assoc)
  from d3 have "(fst ` set (layer1_part a limit) \<union> fst ` set (layer2_part a limit)) \<inter>
      fst ` set (layer3_part a limit) = {}"
    by auto
  with u3 show "fst ` set (layer3_part a limit) =
       fst ` set (layer3_rows a limit) -
       (fst ` set (layer1_part a limit) \<union> fst ` set (layer2_part a limit))"
    by blast
qed

text \<open>
  With a limit of 2 that the section layer fills, the other layers are not consulted;
  with room left, the page layer and the substring layer add what is new, in that order.
\<close>

theorem search_code_examples_layers_witness:
  "search_code_examples_rows
     \<lparr>section_fts = (\<lambda>n. Some [(1, ''a''), (2, ''b'')]), page_fts = (\<lambda>n. None),
      code_like = (\<lambda>n. [(9, ''z'')])\<rparr> 2
   = [(1, ''a''), (2, ''b'')]
   \<and> search_code_examples_rows
     \<lparr>section_fts = (\<lambda>n. Some [(1, ''sec'')]),
      page_fts = (\<lambda>n. Some [(1, ''sec''), (2, ''page'')]),
      code_like = (\<lambda>n. [(2, ''page''), (1, ''sec''), (3, ''code'')])\<rparr> 10
   = [(1, ''sec''), (2, ''page''), (3, ''code'')]"
  using search_code_examples_layers
    [where limit = 2 and ?f2.0 = "\<lambda>n. None" and ?f3.0 = "\<lambda>n. [(9, ''z'')]"
       and a = "\<lparr>section_fts = (\<lambda>n. Some [(1, ''a''), (2, ''b'')]),
                 page_fts = (\<lambda>n. Some []), code_like = (\<lambda>n. [])\<rparr>"]
  by (simp add: search_code_examples_rows_def after_layer3_def after_layer2_def
      after_layer1_def layer1_part_def py_prefix_def Let_def)

lemma nr_node_join_page: "nr_node (join_page d n) = n"
  by (simp add: join_page_def split: option.splits)

lemma find_only_Some:
  "n \<in> set xs \<Longrightarrow> P n \<Longrightarrow> \<forall>m\<in>set xs. m \<noteq> n \<longrightarrow> \<not> P m \<Longrightarrow> find P xs = Some n"
  by (induction xs) auto

lemma find_only:
  "n \<in> set xs \<Longrightarrow> \<forall>m\<in>set xs. m \<noteq> n \<longrightarrow> \<not> P m \<Longrightarrow>
   find P xs = (if P n then Some n else None)"
  by (auto simp: find_only_Some find_None_iff)

lemma find_SomeD: "find P xs = Some x \<Longrightarrow> P x \<and> x \<in> set xs"
  by (induction xs) (auto split: if_splits)

lemma find_exists: "\<exists>x\<in>set xs. P x \<Longrightarrow> \<exists>y. find P xs = Some y \<and> P y"
  by (induction xs) auto

lemma like_LoadImage: "sql_like (contains_pattern ''LoadImage'') ''LoadImage''"
  by (simp add: contains_pattern_def ascii_lower_def)

lemma no_spaces_Load_Image:
  "no_spaces ''Load Image'' = ''LoadImage''" "no_spaces ''LoadImage'' = ''LoadImage''"
  by (simp_all add: no_spaces_def)

lemma stripped_LoadImage:
  "n_name n = ''LoadImage'' \<Longrightarrow> stripped_match ''Load Image'' n"
  "n_name n = ''Load Image'' \<Longrightarrow> stripped_match ''LoadImage'' n"
  by (simp_all add: stripped_match_def no_spaces_Load_Image like_LoadImage)

lemma lookup_found:
  "n \<in> set (db_nodes d) \<Longrightarrow> stripped_match q n \<Longrightarrow> get_node_by_name d q \<noteq> None"
proof -
  assume "n \<in> set (db_nodes d)" "stripped_match q n"
  then have "find (stripped_match q) (db_nodes d) \<noteq> None"
    by (auto simp: find_None_iff)
  then show ?thesis by (auto simp: get_node_by_name_def split: option.splits)
qed

lemma lookup_only:
  assumes n: "n \<in> set (db_nodes d)" and s: "stripped_match q n"
    and others: "\<forall>m\<in>set (db_nodes d). m \<noteq> n \<longrightarrow> \<not> matches_somehow q m"
  shows "get_node_by_name d q = Some (join_page d n)"
proof -
  from others have
    "\<forall>m\<in>set (db_nodes d). m \<noteq> n \<longrightarrow> \<not> exact_match q m"
    "\<forall>m\<in>set (db_nodes d). m \<noteq> n \<longrightarrow> \<not> like_match q m"
    "\<forall>m\<in>set (db_nodes d). m \<noteq> n \<longrightarrow> \<not> stripped_match q m"
    by (auto simp: matches_somehow_def)
  then have
    "find (exact_match q) (db_nodes d) = (if exact_match q n then Some n else None)"
    "find (like_match q) (db_nodes d) = (if like_match q n then Some n else None)"
    "find (stripped_match q) (db_nodes d) = (if stripped_match q n then Some n else None)"
    using n by (simp_all add: find_only)
  then show ?thesis using s by (simp add: get_node_by_name_def)
qed

text \<open>
  Claim C9, as stated, fails: a store that holds a node named \<open>LoadImage\<close> and a node named
  \<open>Load Image Mask\<close> answers the query \<open>Load Image\<close> with the second one, which matches at
  the LIKE tier; the third tier, where \<open>LoadImage\<close> would match, is not consulted.
\<close>

theorem get_node_by_name_shadowed:
  "map_option (\<lambda>r. n_name (nr_node r))
     (get_node_by_name
        (init_db\<lparr>db_nodes :=
           [\<lparr>n_id = 1, n_name = ''LoadImage'', n_display_name = Some ''LoadImage'',
             n_category = ''Image'', n_description = None, n_page_id = None\<rparr>,
            \<lparr>n_id = 2, n_name = ''Load Image Mask'', n_display_name = Some ''Load Image Mask'',
             n_category = ''Image'', n_description = None, n_page_id = None\<rparr>]\<rparr>)
        ''Load Image'')
   = Some ''Load Image Mask''"
  by (simp add: get_node_by_name_def init_db_def exact_match_def like_match_def like_opt_def
      contains_pattern_def ascii_lower_def join_page_def)

text \<open>
  Claim C9, amended. The three tiers are consulted in order, each only when the ones
  before it matched no node: equality with the name or the display name; then SQL
  \<open>LIKE\<close> against \<open>%query%\<close> (containment up to ASCII case, with \<open>%\<close> and \<open>_\<close> of the query
  as wildcards); then the same with the spaces removed from the query and from the
  stored names. The answer is a node that matches at the first tier at which any node
  matches, and nothing when none matches at any tier. So a store with a node named
  \<open>LoadImage\<close> always answers the query \<open>Load Image\<close> with some node, and with that node
  when no other stored node matches the query at any tier; likewise for a node named
  \<open>Load Image\<close> and the query \<open>LoadImage\<close>.
\<close>

theorem get_node_by_name_tiers:
  "((\<exists>m\<in>set (db_nodes d). exact_match q m) \<longrightarrow>
      (\<exists>r. get_node_by_name d q = Some r \<and> exact_match q (nr_node r)))
   \<and> ((\<forall>m\<in>set (db_nodes d). \<not> exact_match q m) \<and> (\<exists>m\<in>set (db_nodes d). like_match q m) \<longrightarrow>
      (\<exists>r. get_node_by_name d q = Some r \<and> like_match q (nr_node r)))
   \<and> ((\<forall>m\<in>set (db_nodes d). \<not> exact_match q m \<and> \<not> like_match q m) \<and>
       (\<exists>m\<in>set (db_nodes d). stripped_match q m) \<longrightarrow>
      (\<exists>r. get_node_by_name d q = Some r \<and> stripped_match q (nr_node r)))
   \<and> ((\<forall>m\<in>set (db_nodes d). \<not> matches_somehow q m) \<longrightarrow> get_node_by_name d q = None)
   \<and> (n \<in> set (db_nodes d) \<and> n_name n = ''LoadImage'' \<longrightarrow>
        get_node_by_name d ''Load Image'' \<noteq> None)
   \<and> (n \<in> set (db_nodes d) \<and> n_name n = ''LoadImage'' \<and>
       (\<forall>m\<in>set (db_nodes d). m \<noteq> n \<longrightarrow> \<not> matches_somehow ''Load Image'' m) \<longrightarrow>
        get_node_by_name d ''Load Image'' = Some (join_page d n))
   \<and> (n \<in> set (db_nodes d) \<and> n_name n = ''Load Image'' \<longrightarrow>
        get_node_by_name d ''LoadImage'' \<noteq> None)
   \<and> (n \<in> set (db_nodes d) \<and> n_name n = ''Load Image'' \<and>
       (\<forall>m\<in>set (db_nodes d). m \<noteq> n \<longrightarrow> \<not> matches_somehow ''LoadImage'' m) \<longrightarrow>
        get_node_by_name d ''LoadImage'' = Some (join_page d n))"
proof (intro conjI impI)
  assume "\<exists>m\<in>set (db_nodes d). exact_match q m"
  then obtain y where "find (exact_match q) (db_nodes d) = Some y" "exact_match q y"
    using find_exists [of "db_nodes d" "exact_match q"] by auto
  then show "\<exists>r. get_node_by_name d q = Some r \<and> exact_match q (nr_node r)"
    by (simp add: get_node_by_name_def nr_node_join_page)
next
  assume h: "(\<forall>m\<in>set (db_nodes d). \<not> exact_match q m) \<and> (\<exists>m\<in>set (db_nodes d). like_match q m)"
  then have none: "find (exact_match q) (db_nodes d) = None" by (simp add: find_None_iff)
  from h obtain y where "find (like_match q) (db_nodes d) = Some y" "like_match q y"
    using find_exists [of "db_nodes d" "like_match q"] by auto
  then show "\<exists>r. get_node_by_name d q = Some r \<and> like_match q (nr_node r)"
    using none by (simp add: get_node_by_name_def nr_node_join_page)
next
  assume h: "(\<forall>m\<in>set (db_nodes d). \<not> exact_match q m \<and> \<not> like_match q m) \<and>
       (\<exists>m\<in>set (db_nodes d). stripped_match q m)"
  then have none: "find (exact_match q) (db_nodes d) = None"
    "find (like_match q) (db_nodes d) = None" by (simp_all add: find_None_iff)
  from h obtain y where "find (stripped_match q) (db_nodes d) = Some y" "stripped_match q y"
    using find_exists [of "db_nodes d" "stripped_match q"] by auto
  then show "\<exists>r. get_node_by_name d q = Some r \<and> stripped_match q (nr_node r)"
    using none by (simp add: get_node_by_name_def nr_node_join_page)
next
  assume "\<forall>m\<in>set (db_nodes d). \<not> matches_somehow q m"
  then have "find (exact_match q) (db_nodes d) = None"
    "find (like_match q) (db_nodes d) = None" "find (stripped_match q) (db_nodes d) = None"
    by (simp_all add: find_None_iff matches_somehow_def)
  then show "get_node_by_name d q = None" by (simp add: get_node_by_name_def)
next
  assume "n \<in> set (db_nodes d) \<and> n_name n = ''LoadImage''"
  then show "get_node_by_name d ''Load Image'' \<noteq> None"
    using lookup_found [of n d "''Load Image''"] stripped_LoadImage(1) [of n] by simp
next
  assume "n \<in> set (db_nodes d) \<and> n_name n = ''LoadImage'' \<and>
       (\<forall>m\<in>set (db_nodes d). m \<noteq> n \<longrightarrow> \<not> matches_somehow ''Load Image'' m)"
  then show "get_node_by_name d ''Load Image'' = Some (join_page d n)"
    using lookup_only [of n d "''Load Image''"] stripped_LoadImage(1) [of n] by simp
next
  assume "n \<in> set (db_nodes d) \<and> n_name n = ''Load Image''"
  then show "get_node_by_name d ''LoadImage'' \<noteq> None"
    using lookup_found [of n d "''LoadImage''"] stripped_LoadImage(2) [of n] by simp
next
  assume "n \<in> set (db_nodes d) \<and> n_name n = ''Load Image'' \<and>
       (\<forall>m\<in>set (db_nodes d). m \<noteq> n \<longrightarrow> \<not> matches_somehow ''LoadImage'' m)"
  then show "get_node_by_name d ''LoadImage'' = Some (join_page d n)"
    using lookup_only [of n d "''LoadImage''"] stripped_LoadImage(2) [of n] by simp
qed

text \<open>A store in which \<open>LoadImage\<close> is the only node that the query \<open>Load Image\<close> matches.\<close>

theorem get_node_by_name_tiers_witness:
  "get_node_by_name
     (init_db\<lparr>db_nodes :=
        [\<lparr>n_id = 1, n_name = ''LoadImage'', n_display_name = Some ''LoadImage'',
          n_category = ''Image'', n_description = None, n_page_id = None\<rparr>,
         \<lparr>n_id = 2, n_name = ''Save Text'', n_display_name = Some ''Save Text'',
          n_category = ''Text'', n_description = None, n_page_id = None\<rparr>]\<rparr>)
     ''Load Image''
   = Some \<lparr>nr_node = \<lparr>n_id = 1, n_name = ''LoadImage'', n_display_name = Some ''LoadImage'',
                       n_category = ''Image'', n_description = None, n_page_id = None\<rparr>,
           nr_url = None, nr_content = None\<rparr>"
proof -
  let ?n = "\<lparr>n_id = 1, n_name = ''LoadImage'', n_display_name = Some ''LoadImage'',
             n_category = ''Image'', n_description = None, n_page_id = None\<rparr>"
  let ?m = "\<lparr>n_id = 2, n_name = ''Save Text'', n_display_name = Some ''Save Text'',
             n_category = ''Text'', n_description = None, n_page_id = None\<rparr>"
  let ?d = "init_db\<lparr>db_nodes := [?n, ?m]\<rparr>"
  have other: "\<not> matches_somehow ''Load Image'' ?m"
    by (simp add: matches_somehow_def exact_match_def like_match_def stripped_match_def
        like_opt_def contains_pattern_def no_spaces_def ascii_lower_def)
  have "?n \<in> set (db_nodes ?d) \<and> n_name ?n = ''LoadImage'' \<and>
      (\<forall>m\<in>set (db_nodes ?d). m \<noteq> ?n \<longrightarrow> \<not> matches_somehow ''Load Image'' m)"
    using other by simp
  then have "get_node_by_name ?d ''Load Image'' = Some (join_page ?d ?n)"
    by (rule get_node_by_name_tiers [where n = ?n and d = ?d, THEN conjunct2, THEN conjunct2,
          THEN conjunct2, THEN conjunct2, THEN conjunct2, THEN conjunct1, THEN mp])
  then show ?thesis by (simp add: join_page_def)
qed

end
